theory Spec2Isabelle
  imports Complex_Main
begin

section \<open>Python values used by the verifier\<close>

text \<open>
  A Python \<^verbatim>\<open>str\<close> is a \<^typ>\<open>string\<close>: a list of characters with code points
  below 256. An exception is a value carrying the text that \<^verbatim>\<open>str(e)\<close> renders;
  a call that may raise returns \<open>exn + 'a\<close>, with \<open>Inl\<close> for the exception.
\<close>

datatype exn = RuntimeError string | ValueError string | OSError string

fun exn_str :: "exn \<Rightarrow> string" where
  "exn_str (RuntimeError m) = m"
| "exn_str (ValueError m) = m"
| "exn_str (OSError m) = m"

definition DQUOTE :: char where
  "DQUOTE = CHR 0x22"

definition NEWLINE :: char where
  "NEWLINE = CHR 0x0A"

text \<open>
  \<^verbatim>\<open>str.isspace\<close> on one character: the code points below 256 that Python counts as
  whitespace (tab to carriage return, the four separators 0x1C--0x1F, space, 0x85, 0xA0).
\<close>

definition py_isspace :: "char \<Rightarrow> bool" where
  "py_isspace c = ((of_char c :: nat) \<in> {9, 10, 11, 12, 13, 28, 29, 30, 31, 32, 133, 160})"

definition py_rstrip_by :: "(char \<Rightarrow> bool) \<Rightarrow> string \<Rightarrow> string" where
  "py_rstrip_by P s = rev (dropWhile P (rev s))"

text \<open>\<^verbatim>\<open>s.strip()\<close>, \<^verbatim>\<open>s.strip(chars)\<close> and \<^verbatim>\<open>s.rstrip(chars)\<close>.\<close>

definition py_strip :: "string \<Rightarrow> string" where
  "py_strip s = py_rstrip_by py_isspace (dropWhile py_isspace s)"

definition py_strip_chars :: "string \<Rightarrow> string \<Rightarrow> string" where
  "py_strip_chars chars s =
     py_rstrip_by (\<lambda>c. c \<in> set chars) (dropWhile (\<lambda>c. c \<in> set chars) s)"

definition py_rstrip_chars :: "string \<Rightarrow> string \<Rightarrow> string" where
  "py_rstrip_chars chars s = py_rstrip_by (\<lambda>c. c \<in> set chars) s"

text \<open>
  \<^verbatim>\<open>s.lower()\<close> on the ASCII letters. The strings this program lowers are hex digests
  and matches of \<^verbatim>\<open>[0-9a-fA-F]{64}\<close>.
\<close>

definition py_lower_char :: "char \<Rightarrow> char" where
  "py_lower_char c =
     (case map_of (zip ''ABCDEFGHIJKLMNOPQRSTUVWXYZ'' ''abcdefghijklmnopqrstuvwxyz'') c of
        Some l \<Rightarrow> l
      | None \<Rightarrow> c)"

definition py_lower :: "string \<Rightarrow> string" where
  "py_lower s = map py_lower_char s"

text \<open>\<^verbatim>\<open>s.replace(c, r)\<close> for a one-character \<^verbatim>\<open>c\<close>.\<close>

definition py_replace :: "char \<Rightarrow> string \<Rightarrow> string \<Rightarrow> string" where
  "py_replace c r s = concat (map (\<lambda>x. if x = c then r else [x]) s)"

text \<open>\<^verbatim>\<open>s.split(sep)\<close> for a one-character separator: never the empty list.\<close>

fun py_split :: "char \<Rightarrow> string \<Rightarrow> string list" where
  "py_split sep [] = [[]]"
| "py_split sep (c # cs) =
     (if c = sep then [] # py_split sep cs
      else (case py_split sep cs of
              [] \<Rightarrow> [[c]]
            | w # ws \<Rightarrow> (c # w) # ws))"

text \<open>\<^verbatim>\<open>sep.join(xs)\<close>.\<close>

fun py_join :: "string \<Rightarrow> string list \<Rightarrow> string" where
  "py_join sep [] = []"
| "py_join sep [x] = x"
| "py_join sep (x # y # ys) = x @ sep @ py_join sep (y # ys)"

text \<open>\<^verbatim>\<open>s.startswith(lit)\<close>.\<close>

definition startswith :: "string \<Rightarrow> string \<Rightarrow> bool" where
  "startswith lit s = (take (length lit) s = lit)"

text \<open>\<^verbatim>\<open>str(n)\<close> for an integer.\<close>

fun str_nat :: "nat \<Rightarrow> string" where
  "str_nat n =
     (if n < 10 then [''0123456789'' ! n]
      else str_nat (n div 10) @ [''0123456789'' ! (n mod 10)])"

declare str_nat.simps [simp del]

definition str_int :: "int \<Rightarrow> string" where
  "str_int i = (if i < 0 then CHR ''-'' # str_nat (nat (- i)) else str_nat (nat i))"

section \<open>Regular expressions of the verifier\<close>

text \<open>
  \<^verbatim>\<open>_QUOTED_TXT_RE.findall(out)\<close> for the pattern \<^verbatim>\<open>"([^"]*)"\<close> (line 30): scanning
  from the left, an opening quote, the longest run without a quote, and a closing
  quote; the scan resumes after the closing quote. An opening quote with no closing
  quote after it matches nothing, and neither does anything after it.
\<close>

function findall_quoted :: "string \<Rightarrow> string list" where
  "findall_quoted [] = []"
| "findall_quoted (c # cs) =
     (if c = DQUOTE then
        (case dropWhile (\<lambda>x. x \<noteq> DQUOTE) cs of
           [] \<Rightarrow> []
         | q # rest \<Rightarrow> takeWhile (\<lambda>x. x \<noteq> DQUOTE) cs # findall_quoted rest)
      else findall_quoted cs)"
  by pat_completeness auto
termination
proof (relation "measure length")
  show "wf (measure length)" by simp
next
  fix c :: char and cs :: string and q :: char and rest :: string
  assume "dropWhile (\<lambda>x. x \<noteq> DQUOTE) cs = q # rest"
  then have "length (q # rest) \<le> length cs"
    using length_dropWhile_le [of "\<lambda>x. x \<noteq> DQUOTE" cs] by simp
  then show "(rest, c # cs) \<in> measure length" by simp
next
  fix c :: char and cs :: string
  show "(cs, c # cs) \<in> measure length" by simp
qed

text \<open>
  \<^verbatim>\<open>re.search(lit + group, txt)\<close> for a literal marker followed by one capture group:
  the leftmost position where the marker stands and the group matches right after it;
  the result is the captured text. \<open>grp\<close> matches the group at the start of what
  follows the marker.
\<close>

fun re_search :: "string \<Rightarrow> (string \<Rightarrow> string option) \<Rightarrow> string \<Rightarrow> string option" where
  "re_search lit grp [] = (if lit = [] then grp [] else None)"
| "re_search lit grp (c # cs) =
     (if startswith lit (c # cs) then
        (case grp (drop (length lit) (c # cs)) of
           Some g \<Rightarrow> Some g
         | None \<Rightarrow> re_search lit grp cs)
      else re_search lit grp cs)"

text \<open>The group \<^verbatim>\<open>([^;]+)\<close>: the longest run without a semicolon, at least one character.\<close>

definition group_non_semicolon :: "string \<Rightarrow> string option" where
  "group_non_semicolon s =
     (let g = takeWhile (\<lambda>c. c \<noteq> CHR '';'') s in if g = [] then None else Some g)"

definition is_hex_digit :: "char \<Rightarrow> bool" where
  "is_hex_digit c = (c \<in> set ''0123456789abcdefABCDEF'')"

text \<open>The group \<^verbatim>\<open>([0-9a-fA-F]{64})\<close>: the next 64 characters, all of them hex digits.\<close>

definition group_hex64 :: "string \<Rightarrow> string option" where
  "group_hex64 s =
     (if 64 \<le> length s \<and> list_all is_hex_digit (take 64 s) then Some (take 64 s) else None)"

section \<open>TXT payload\<close>

text \<open>
  \<^verbatim>\<open>_clean_dig_txt\<close> (lines 75--87). The argument is the string \<^verbatim>\<open>run\<close> returned.
  A list is true in Python when it is not empty, whatever its elements.
\<close>

definition clean_dig_txt :: "string \<Rightarrow> string" where
  "clean_dig_txt out0 =
     (let out = py_strip out0 in
      if out = [] then []
      else
        (let parts = findall_quoted out in
         if parts \<noteq> [] then py_strip (concat parts)
         else py_strip (py_replace DQUOTE [] out)))"

text \<open>The dataclass \<^verbatim>\<open>DnsProof\<close> (lines 33--37).\<close>

record DnsProof =
  ts_iso :: string
  sha256 :: string
  filename :: "string option"

text \<open>\<^verbatim>\<open>parse_dns_txt\<close> (lines 139--150). A match object is always true.\<close>

definition parse_dns_txt :: "string \<Rightarrow> exn + DnsProof" where
  "parse_dns_txt txt0 =
     (let txt = py_strip_chars [DQUOTE] (py_strip txt0);
          m_ts = re_search ''TS='' group_non_semicolon txt;
          m_sha = re_search ''SHA256='' group_hex64 txt;
          m_file = re_search ''FILE='' group_non_semicolon txt
      in case m_ts of
           None \<Rightarrow> Inl (RuntimeError (''Unrecognized TXT format: '' @ txt))
         | Some ts \<Rightarrow>
             (case m_sha of
                None \<Rightarrow> Inl (RuntimeError (''Unrecognized TXT format: '' @ txt))
              | Some sha \<Rightarrow>
                  Inr \<lparr>ts_iso = ts, sha256 = py_lower sha, filename = m_file\<rparr>))"

section \<open>Constants of the verifier\<close>

text \<open>
  The module-level constants of \<^verbatim>\<open>poa_verify_full.py\<close> (lines 16--27).
\<close>

definition ENV_FILE :: string where
  "ENV_FILE = ''/opt/uptimeproof/infra/poa.env''"

definition DEFAULT_EXPORT_DIR :: string where
  "DEFAULT_EXPORT_DIR = ''/proof/exports''"

definition DNS_NAME_DEFAULT :: string where
  "DNS_NAME_DEFAULT = ''_poa.uptimeproof.io''"

definition DNS_ZONE_DEFAULT :: string where
  "DNS_ZONE_DEFAULT = ''uptimeproof.io''"

definition LOOKBACK_FILES :: nat where
  "LOOKBACK_FILES = 300"

definition WARN_SKEW_SECONDS :: int where
  "WARN_SKEW_SECONDS = 10 * 60"

definition FAIL_SKEW_SECONDS :: int where
  "FAIL_SKEW_SECONDS = 60 * 60"

section \<open>Verdict engine\<close>

text \<open>
  \<^verbatim>\<open>verdict_from_hash_and_skew\<close> (lines 174--181). The verdict is the string the
  source returns. Both branches after the \<^verbatim>\<open>WARN_SKEW_SECONDS\<close> test return
  \<^verbatim>\<open>"WARN"\<close>, as in the source.
\<close>

definition verdict_from_hash_and_skew :: "bool \<Rightarrow> int \<Rightarrow> string" where
  "verdict_from_hash_and_skew hash_ok skew =
     (if \<not> hash_ok then ''FAIL''
      else if \<bar>skew\<bar> \<le> WARN_SKEW_SECONDS then ''OK''
      else if \<bar>skew\<bar> \<le> FAIL_SKEW_SECONDS then ''WARN''
      else ''WARN'')"

section \<open>External command and environment\<close>

text \<open>
  \<^verbatim>\<open>s.splitlines()\<close>: the line boundaries with code points below 256 are line feed,
  carriage return, carriage return followed by line feed, vertical tab, form feed, the
  separators 0x1C--0x1E and 0x85. A text that ends at a boundary has no empty last line.
\<close>

definition is_linebreak :: "char \<Rightarrow> bool" where
  "is_linebreak c = ((of_char c :: nat) \<in> {10, 11, 12, 13, 28, 29, 30, 133})"

fun py_splitlines_from :: "string \<Rightarrow> string \<Rightarrow> string list" where
  "py_splitlines_from cur [] = (if cur = [] then [] else [rev cur])"
| "py_splitlines_from cur [c] = (if is_linebreak c then [rev cur] else [rev (c # cur)])"
| "py_splitlines_from cur (c # d # cs) =
     (if c = CHR 0x0D \<and> d = CHR 0x0A then rev cur # py_splitlines_from [] cs
      else if is_linebreak c then rev cur # py_splitlines_from [] (d # cs)
      else py_splitlines_from (c # cur) (d # cs))"

definition py_splitlines :: "string \<Rightarrow> string list" where
  "py_splitlines s = py_splitlines_from [] s"

text \<open>
  The process environment maps a variable to its value when it is set;
  \<^verbatim>\<open>os.getenv(key, default)\<close> reads it.
\<close>

type_synonym environ = "string \<Rightarrow> string option"

definition getenv :: "environ \<Rightarrow> string \<Rightarrow> string \<Rightarrow> string" where
  "getenv environ key dflt = (case environ key of None \<Rightarrow> dflt | Some v \<Rightarrow> v)"

text \<open>
  \<^verbatim>\<open>subprocess.run(cmd, ...)\<close> is the world's answer to an argument list: it raises
  (the program cannot be started) or completes with a return code and the two output
  texts. The answer to a given argument list is fixed during a run of the verifier.
\<close>

type_synonym cmd = "string list"

record completed =
  returncode :: int
  stdout :: string
  stderr :: string

type_synonym subprocess = "cmd \<Rightarrow> exn + completed"

text \<open>\<^verbatim>\<open>run\<close> (lines 54--58).\<close>

definition run :: "subprocess \<Rightarrow> cmd \<Rightarrow> exn + string" where
  "run proc cmd =
     (case proc cmd of
        Inl e \<Rightarrow> Inl e
      | Inr p \<Rightarrow>
          if returncode p \<noteq> 0
          then Inl (RuntimeError
                 (''Command failed: '' @ py_join '' '' cmd @ [NEWLINE] @ py_strip (stderr p)))
          else Inr (py_strip (stdout p)))"

section \<open>Nameserver resolution and TXT fetch\<close>

text \<open>
  The three argument lists the verifier passes to \<^verbatim>\<open>run\<close>: the NS lookup of a zone
  (line 91), the TXT query directed at one nameserver (line 119) and the TXT query with
  no nameserver argument, which the system resolver answers (line 129).
\<close>

definition ns_cmd :: "string \<Rightarrow> cmd" where
  "ns_cmd zone = [''dig'', ''+short'', ''NS'', zone]"

definition txt_cmd :: "string \<Rightarrow> string \<Rightarrow> cmd" where
  "txt_cmd ns name = [''dig'', CHR ''@'' # ns, ''+short'', ''TXT'', name, ''+time=2'', ''+tries=1'']"

definition system_txt_cmd :: "string \<Rightarrow> cmd" where
  "system_txt_cmd name = [''dig'', ''+short'', ''TXT'', name, ''+time=2'', ''+tries=1'']"

text \<open>
  A function that runs commands returns the commands it ran, in order, with its result.
  \<^verbatim>\<open>_get_authoritative_ns\<close> (lines 90--93).
\<close>

definition get_authoritative_ns :: "subprocess \<Rightarrow> string \<Rightarrow> cmd list \<times> (exn + string list)" where
  "get_authoritative_ns proc zone =
     ([ns_cmd zone],
      (case run proc (ns_cmd zone) of
         Inl e \<Rightarrow> Inl e
       | Inr out \<Rightarrow>
           Inr (map (\<lambda>x. py_rstrip_chars ''.'' (py_strip x))
                  (filter (\<lambda>x. py_strip x \<noteq> []) (py_splitlines out)))))"

text \<open>
  The nameserver list of \<^verbatim>\<open>dig_txt_authoritative\<close> (lines 108--112): the override of
  the environment when it is not blank, the NS lookup otherwise.
\<close>

definition ns_list_of :: "environ \<Rightarrow> subprocess \<Rightarrow> string \<Rightarrow> cmd list \<times> (exn + string list)" where
  "ns_list_of environ proc zone =
     (let ns_override = py_strip (getenv environ ''POA_DNS_NS_OVERRIDE'' '''') in
      if ns_override \<noteq> []
      then ([], Inr (map (\<lambda>x. py_rstrip_chars ''.'' (py_strip x))
                      (filter (\<lambda>x. py_strip x \<noteq> []) (py_split CHR '','' ns_override))))
      else get_authoritative_ns proc zone)"

text \<open>
  The loop over the nameservers (lines 117--125). It ends with the first nameserver
  whose cleaned answer is not empty, or runs through the list; \<open>last_err\<close> is the
  exception of the latest query that raised. The result is the commands run, the
  answer found with its nameserver, and \<open>last_err\<close> at the end.
\<close>

fun try_nameservers ::
  "subprocess \<Rightarrow> string \<Rightarrow> exn option \<Rightarrow> string list \<Rightarrow>
     cmd list \<times> (string \<times> string) option \<times> exn option" where
  "try_nameservers proc name last_err [] = ([], None, last_err)"
| "try_nameservers proc name last_err (ns # rest) =
     (case run proc (txt_cmd ns name) of
        Inl e \<Rightarrow>
          (case try_nameservers proc name (Some e) rest of
             (cmds, r) \<Rightarrow> (txt_cmd ns name # cmds, r))
      | Inr out \<Rightarrow>
          if clean_dig_txt out \<noteq> [] then ([txt_cmd ns name], Some (clean_dig_txt out, ns), last_err)
          else (case try_nameservers proc name last_err rest of
                  (cmds, r) \<Rightarrow> (txt_cmd ns name # cmds, r)))"

text \<open>\<^verbatim>\<open>f"{last_err}"\<close> for an optional exception.\<close>

definition str_last_err :: "exn option \<Rightarrow> string" where
  "str_last_err last_err = (case last_err of None \<Rightarrow> ''None'' | Some e \<Rightarrow> exn_str e)"

definition no_txt_error :: "string \<Rightarrow> string \<Rightarrow> exn option \<Rightarrow> exn" where
  "no_txt_error name zone last_err =
     RuntimeError (''No TXT returned for '' @ name @ '' via authoritative NS (zone='' @ zone @
       ''). last_err='' @ str_last_err last_err)"

text \<open>
  \<^verbatim>\<open>dig_txt_authoritative\<close> (lines 96--136). The fallback query is not inside a
  \<^verbatim>\<open>try\<close>: an exception of it leaves the function.
\<close>

definition dig_txt_authoritative ::
  "environ \<Rightarrow> subprocess \<Rightarrow> string \<Rightarrow> string \<Rightarrow> cmd list \<times> (exn + string \<times> string)" where
  "dig_txt_authoritative environ proc name zone =
     (case ns_list_of environ proc zone of
        (log0, Inl e) \<Rightarrow> (log0, Inl e)
      | (log0, Inr ns_list) \<Rightarrow>
          (case try_nameservers proc name None ns_list of
             (log1, Some found, last_err) \<Rightarrow> (log0 @ log1, Inr found)
           | (log1, None, last_err) \<Rightarrow>
               if getenv environ ''POA_DNS_ALLOW_SYSTEM_RESOLVER'' ''0'' = ''1''
               then
                 (case run proc (system_txt_cmd name) of
                    Inl e \<Rightarrow> (log0 @ log1 @ [system_txt_cmd name], Inl e)
                  | Inr out \<Rightarrow>
                      if clean_dig_txt out \<noteq> []
                      then (log0 @ log1 @ [system_txt_cmd name],
                            Inr (clean_dig_txt out, ''SYSTEM_RESOLVER''))
                      else (log0 @ log1 @ [system_txt_cmd name],
                            Inl (no_txt_error name zone last_err)))
               else (log0 @ log1, Inl (no_txt_error name zone last_err))))"

section \<open>File system and local matching\<close>

text \<open>
  The file system as the verifier reads it: whether a path exists, the paths a glob
  pattern matches (in the order \<^verbatim>\<open>glob.glob\<close> lists them), the modification time of a
  path and the SHA-256 hex digest of a file's content (\<^verbatim>\<open>sha256_file\<close>, lines 61--66),
  the last two raising when the path cannot be read. A modification time is the real
  number the float denotes. The file system does not change during a run.
\<close>

record filesystem =
  fs_exists :: "string \<Rightarrow> bool"
  fs_glob :: "string \<Rightarrow> string list"
  fs_getmtime :: "string \<Rightarrow> exn + real"
  fs_sha256 :: "string \<Rightarrow> exn + string"

text \<open>A function that reads the file system returns its reads, in order, with its result.\<close>

datatype fs_op = Exists string | Glob string | GetMtime string | Sha256File string

text \<open>\<^verbatim>\<open>os.path.join(a, b)\<close> on POSIX: an absolute second component replaces the first.\<close>

definition path_join :: "string \<Rightarrow> string \<Rightarrow> string" where
  "path_join a b =
     (if startswith ''/'' b then b
      else if a = [] \<or> last a = CHR ''/'' then a @ b
      else a @ ''/'' @ b)"

text \<open>
  The sort keys of \<^verbatim>\<open>files.sort(key=os.path.getmtime, ...)\<close>: the modification time of
  every file, read in list order before any comparison; the first read that raises ends
  the sort with its exception.
\<close>

fun sort_keys :: "filesystem \<Rightarrow> string list \<Rightarrow> fs_op list \<times> (exn + real list)" where
  "sort_keys fs [] = ([], Inr [])"
| "sort_keys fs (f # rest) =
     (case fs_getmtime fs f of
        Inl e \<Rightarrow> ([GetMtime f], Inl e)
      | Inr m \<Rightarrow>
          (case sort_keys fs rest of
             (ops, Inl e) \<Rightarrow> (GetMtime f # ops, Inl e)
           | (ops, Inr ms) \<Rightarrow> (GetMtime f # ops, Inr (m # ms))))"

text \<open>
  \<^verbatim>\<open>sort(reverse=True)\<close> on the keyed files: descending keys, and files with equal
  keys in their original order (the list is reversed, sorted by a stable ascending sort
  and reversed again).
\<close>

definition sort_reverse :: "(real \<times> string) list \<Rightarrow> (real \<times> string) list" where
  "sort_reverse kfs = rev (sort_key fst (rev kfs))"

text \<open>\<^verbatim>\<open>newest_files\<close> (lines 69--72).\<close>

definition newest_files :: "filesystem \<Rightarrow> string \<Rightarrow> nat \<Rightarrow> fs_op list \<times> (exn + string list)" where
  "newest_files fs export_dir n =
     (let pattern = path_join export_dir ''heartbeats_*.json'';
          files = fs_glob fs pattern
      in case sort_keys fs files of
           (ops, Inl e) \<Rightarrow> (Glob pattern # ops, Inl e)
         | (ops, Inr ms) \<Rightarrow>
             (Glob pattern # ops, Inr (take n (map snd (sort_reverse (zip ms files))))))"

text \<open>
  The scan loop of \<^verbatim>\<open>find_local_match\<close> (lines 164--169): the first file whose
  lower-cased digest equals the proof's hash; a file whose hashing raises is skipped.
\<close>

fun hash_scan ::
  "filesystem \<Rightarrow> string \<Rightarrow> string list \<Rightarrow> fs_op list \<times> (string option \<times> string option)" where
  "hash_scan fs sha [] = ([], (None, None))"
| "hash_scan fs sha (f # rest) =
     (case fs_sha256 fs f of
        Inl e \<Rightarrow> (case hash_scan fs sha rest of (ops, r) \<Rightarrow> (Sha256File f # ops, r))
      | Inr h \<Rightarrow>
          if py_lower h = sha then ([Sha256File f], (Some f, Some ''matched_by_hash_scan''))
          else (case hash_scan fs sha rest of (ops, r) \<Rightarrow> (Sha256File f # ops, r)))"

text \<open>
  The second tier of \<^verbatim>\<open>find_local_match\<close> (lines 164--171): the scan over the
  \<^verbatim>\<open>LOOKBACK_FILES\<close> newest files. An exception of \<^verbatim>\<open>newest_files\<close> leaves the
  function.
\<close>

definition hash_scan_tier ::
  "filesystem \<Rightarrow> string \<Rightarrow> DnsProof \<Rightarrow>
     fs_op list \<times> (exn + string option \<times> string option)" where
  "hash_scan_tier fs export_dir p =
     (case newest_files fs export_dir LOOKBACK_FILES of
        (ops, Inl e) \<Rightarrow> (ops, Inl e)
      | (ops, Inr files) \<Rightarrow>
          (case hash_scan fs (sha256 p) files of (ops', r) \<Rightarrow> (ops @ ops', Inr r)))"

text \<open>
  \<^verbatim>\<open>find_local_match\<close> (lines 158--171). A filename is true in Python when it is
  present and not the empty string.
\<close>

definition find_local_match ::
  "filesystem \<Rightarrow> string \<Rightarrow> DnsProof \<Rightarrow>
     fs_op list \<times> (exn + string option \<times> string option)" where
  "find_local_match fs export_dir p =
     (case filename p of
        None \<Rightarrow> hash_scan_tier fs export_dir p
      | Some fname \<Rightarrow>
          if fname = [] then hash_scan_tier fs export_dir p
          else
            (let candidate = path_join export_dir fname in
             if fs_exists fs candidate
             then ([Exists candidate], Inr (Some candidate, Some ''matched_by_filename''))
             else (case hash_scan_tier fs export_dir p of
                     (ops, r) \<Rightarrow> (Exists candidate # ops, r))))"

section \<open>Timestamps\<close>

text \<open>
  A \<^verbatim>\<open>datetime\<close> object: the wall-clock fields and the UTC offset in seconds of its
  \<^verbatim>\<open>tzinfo\<close>, absent for a naive datetime.
\<close>

record datetime =
  year :: nat
  month :: nat
  day :: nat
  hour :: nat
  minute :: nat
  second :: nat
  microsecond :: nat
  utcoffset :: "real option"

text \<open>
  The two calls into the standard library are answers of the world, as the external
  command is: which strings \<^verbatim>\<open>datetime.fromisoformat\<close> accepts depends on the library's
  version, and what \<^verbatim>\<open>timestamp()\<close> returns for a naive datetime depends on the host's
  time zone and platform. Either call may raise; \<^verbatim>\<open>timestamp()\<close> returns a float, taken
  as the real number it denotes.
\<close>

record pylib =
  lib_fromisoformat :: "string \<Rightarrow> exn + datetime"
  lib_timestamp :: "datetime \<Rightarrow> exn + real"

text \<open>\<^verbatim>\<open>int(x)\<close> on a float: truncation towards zero.\<close>

definition py_int :: "real \<Rightarrow> int" where
  "py_int x = (if 0 \<le> x then \<lfloor>x\<rfloor> else \<lceil>x\<rceil>)"

text \<open>\<^verbatim>\<open>iso_to_unix\<close> (lines 153--155).\<close>

definition iso_to_unix :: "pylib \<Rightarrow> string \<Rightarrow> exn + int" where
  "iso_to_unix lib ts =
     (case lib_fromisoformat lib (py_replace CHR ''Z'' ''+00:00'' ts) of
        Inl e \<Rightarrow> Inl e
      | Inr dt \<Rightarrow>
          (case lib_timestamp lib dt of
             Inl e \<Rightarrow> Inl e
           | Inr x \<Rightarrow> Inr (py_int x)))"

section \<open>Orchestrator\<close>

text \<open>
  \<^verbatim>\<open>load_env_file\<close> (lines 40--51). The content of a path is absent when the path does
  not exist; reading it raises or gives its text. A later line overrides an earlier one
  with the same key.
\<close>

fun env_lines :: "string list \<Rightarrow> (string \<rightharpoonup> string) \<Rightarrow> (string \<rightharpoonup> string)" where
  "env_lines [] d = d"
| "env_lines (line0 # rest) d =
     (let line = py_strip line0 in
      if line = [] \<or> startswith ''#'' line \<or> CHR ''='' \<notin> set line then env_lines rest d
      else env_lines rest
             (d(py_strip (takeWhile (\<lambda>c. c \<noteq> CHR ''='') line) \<mapsto>
                  py_strip (drop 1 (dropWhile (\<lambda>c. c \<noteq> CHR ''='') line)))))"

definition load_env_file :: "(exn + string) option \<Rightarrow> exn + (string \<rightharpoonup> string)" where
  "load_env_file content =
     (case content of
        None \<Rightarrow> Inr Map.empty
      | Some (Inl e) \<Rightarrow> Inl e
      | Some (Inr text) \<Rightarrow> Inr (env_lines (py_splitlines text) Map.empty))"

text \<open>
  The world of one run: the text files, the process environment, the external command,
  the file system and the standard library on its host.
\<close>

record world =
  w_text_file :: "string \<Rightarrow> (exn + string) option"
  w_environ :: environ
  w_proc :: subprocess
  w_fs :: filesystem
  w_lib :: pylib

text \<open>
  \<^verbatim>\<open>a or b\<close> on an optional string and a default: the string when it is present and not
  empty. \<^verbatim>\<open>f"{x}"\<close> on an optional string.
\<close>

definition or_else :: "string option \<Rightarrow> string \<Rightarrow> string" where
  "or_else x dflt = (case x of None \<Rightarrow> dflt | Some s \<Rightarrow> if s = [] then dflt else s)"

definition str_option :: "string option \<Rightarrow> string" where
  "str_option x = (case x of None \<Rightarrow> ''None'' | Some s \<Rightarrow> s)"

text \<open>
  What \<^verbatim>\<open>main\<close> holds when it reaches line 204: the values of lines 185--203.
\<close>

record run_inputs =
  ri_used_ns :: string
  ri_dns_txt :: string
  ri_export_dir :: string
  ri_proof :: DnsProof
  ri_dns_ts_unix :: int
  ri_match_path :: "string option"
  ri_how :: "string option"

text \<open>
  Lines 185--203 of \<^verbatim>\<open>main\<close>: configuration, fetch, parse, timestamp and local match.
  An exception of any of the five calls leaves \<^verbatim>\<open>main\<close>.
\<close>

definition main_inputs :: "world \<Rightarrow> exn + run_inputs" where
  "main_inputs w =
     (case load_env_file (w_text_file w ENV_FILE) of
        Inl e \<Rightarrow> Inl e
      | Inr env \<Rightarrow>
          (let dns_name = (case env ''DNS_NAME'' of None \<Rightarrow> DNS_NAME_DEFAULT | Some v \<Rightarrow> v);
               dns_zone = or_else (w_environ w ''DNS_ZONE'')
                            (or_else (env ''DNS_ZONE'') DNS_ZONE_DEFAULT);
               export_dir = py_rstrip_chars ''/''
                              (or_else (w_environ w ''POA_EXPORT_DIR'') DEFAULT_EXPORT_DIR)
           in case snd (dig_txt_authoritative (w_environ w) (w_proc w) dns_name dns_zone) of
                Inl e \<Rightarrow> Inl e
              | Inr (dns_txt, used_ns) \<Rightarrow>
                  (case parse_dns_txt dns_txt of
                     Inl e \<Rightarrow> Inl e
                   | Inr p \<Rightarrow>
                       (case iso_to_unix (w_lib w) (ts_iso p) of
                          Inl e \<Rightarrow> Inl e
                        | Inr dns_ts_unix \<Rightarrow>
                            (case snd (find_local_match (w_fs w) export_dir p) of
                               Inl e \<Rightarrow> Inl e
                             | Inr (match_path, how) \<Rightarrow>
                                 Inr \<lparr>ri_used_ns = used_ns, ri_dns_txt = dns_txt,
                                      ri_export_dir = export_dir, ri_proof = p,
                                      ri_dns_ts_unix = dns_ts_unix,
                                      ri_match_path = match_path, ri_how = how\<rparr>)))))"

text \<open>
  Lines 204--227 of \<^verbatim>\<open>main\<close>: the lines printed and the value returned. A path is
  false in Python when it is absent or empty. Hashing the matched file and reading its
  modification time are not inside a \<^verbatim>\<open>try\<close>.
\<close>

definition main_report :: "filesystem \<Rightarrow> run_inputs \<Rightarrow> exn + string list \<times> int" where
  "main_report fs i =
     (if or_else (ri_match_path i) [] = []
      then Inr ([''VERDICT: FAIL'',
                 ''DNS NS      : '' @ ri_used_ns i,
                 ''DNS TXT     : '' @ ri_dns_txt i,
                 ''EXPORT_DIR  : '' @ ri_export_dir i,
                 ''LOCAL       : FAIL (no matching export found in last '' @
                   str_nat LOOKBACK_FILES @ '' files)''], 2)
      else
        (let match_path = or_else (ri_match_path i) [] in
         case fs_sha256 fs match_path of
           Inl e \<Rightarrow> Inl e
         | Inr h \<Rightarrow>
             (case fs_getmtime fs match_path of
                Inl e \<Rightarrow> Inl e
              | Inr m \<Rightarrow>
                  (let file_sha = py_lower h;
                       hash_ok = (file_sha = sha256 (ri_proof i));
                       mtime = py_int m;
                       skew = mtime - ri_dns_ts_unix i;
                       local_v = verdict_from_hash_and_skew hash_ok skew
                   in Inr ([''VERDICT: '' @ local_v,
                            ''DNS NS      : '' @ ri_used_ns i,
                            ''DNS TXT     : '' @ ri_dns_txt i,
                            ''EXPORT_DIR  : '' @ ri_export_dir i,
                            ''Matched file: '' @ match_path @ '' ('' @ str_option (ri_how i) @ '')'',
                            ''DNS SHA256  : '' @ sha256 (ri_proof i),
                            ''File SHA256 : '' @ file_sha,
                            ''Skew seconds: '' @ str_int skew @ '' (file_mtime - dns_ts)'',
                            ''LOCAL: '' @ local_v],
                           if local_v = ''OK'' then 0 else if local_v = ''WARN'' then 1 else 2)))))"

text \<open>\<^verbatim>\<open>main\<close> (lines 184--227): the printed lines and the return value, or the exception.\<close>

definition main :: "world \<Rightarrow> exn + string list \<times> int" where
  "main w = (case main_inputs w of Inl e \<Rightarrow> Inl e | Inr i \<Rightarrow> main_report (w_fs w) i)"

text \<open>
  The script (lines 230--231): \<^verbatim>\<open>sys.exit(main())\<close> ends the process with the value
  \<^verbatim>\<open>main\<close> returns. When \<^verbatim>\<open>main\<close> raises, nothing catches the exception: the
  interpreter prints the traceback and ends the process with status 1.
\<close>

definition exit_status :: "world \<Rightarrow> int" where
  "exit_status w = (case main w of Inl e \<Rightarrow> 1 | Inr (out, code) \<Rightarrow> code)"

section \<open>Vocabulary of the statements\<close>

text \<open>
  A payload laid out as quoted segments: each pair is the text before a segment (the
  gap) and the segment between its two quotes; \<open>tail\<close> is what follows the last
  closing quote.
\<close>

definition quoted_layout :: "(string \<times> string) list \<Rightarrow> string \<Rightarrow> string" where
  "quoted_layout pairs tail =
     concat (map (\<lambda>p. fst p @ [DQUOTE] @ snd p @ [DQUOTE]) pairs) @ tail"

text \<open>
  The tokens of a marker in a text: for every place where the marker stands, from left
  to right, the characters after it up to the next semicolon or the end of the text.
\<close>

fun tails :: "'a list \<Rightarrow> 'a list list" where
  "tails [] = [[]]"
| "tails (x # xs) = (x # xs) # tails xs"

definition marker_tokens :: "string \<Rightarrow> string \<Rightarrow> string list" where
  "marker_tokens lit t =
     map (\<lambda>s. takeWhile (\<lambda>c. c \<noteq> CHR '';'') (drop (length lit) s))
       (filter (startswith lit) (tails t))"

text \<open>A timestamp or filename token is a non-empty token of its marker.\<close>

definition has_ts_token :: "string \<Rightarrow> bool" where
  "has_ts_token t = list_ex (\<lambda>tok. tok \<noteq> []) (marker_tokens ''TS='' t)"

definition has_file_token :: "string \<Rightarrow> bool" where
  "has_file_token t = list_ex (\<lambda>tok. tok \<noteq> []) (marker_tokens ''FILE='' t)"

text \<open>
  A hash token of exactly 64 hexadecimal characters, as the claim words it, and a hash
  token that starts with 64 hexadecimal characters, whatever follows them.
\<close>

definition hash_token_exact :: "string \<Rightarrow> bool" where
  "hash_token_exact tok = (length tok = 64 \<and> list_all is_hex_digit tok)"

definition hash_token_leading :: "string \<Rightarrow> bool" where
  "hash_token_leading tok = (64 \<le> length (takeWhile is_hex_digit tok))"

definition has_exact_hash_token :: "string \<Rightarrow> bool" where
  "has_exact_hash_token t = list_ex hash_token_exact (marker_tokens ''SHA256='' t)"

definition has_leading_hash_token :: "string \<Rightarrow> bool" where
  "has_leading_hash_token t = list_ex hash_token_leading (marker_tokens ''SHA256='' t)"

text \<open>
  An NS lookup is a command that starts as \<^verbatim>\<open>dig +short NS\<close>. The last error
  observed over a list of nameservers is the exception of the last one, in list order,
  whose query raises.
\<close>

definition is_ns_lookup :: "cmd \<Rightarrow> bool" where
  "is_ns_lookup cmd = (take 3 cmd = [''dig'', ''+short'', ''NS''])"

definition observed_errors :: "subprocess \<Rightarrow> string \<Rightarrow> string list \<Rightarrow> exn list" where
  "observed_errors proc name ns_list =
     List.map_filter
       (\<lambda>ns. case run proc (txt_cmd ns name) of Inl e \<Rightarrow> Some e | Inr out \<Rightarrow> None) ns_list"

definition last_observed :: "exn list \<Rightarrow> exn option" where
  "last_observed es = (if es = [] then None else Some (last es))"

text \<open>A nameserver yields nothing when its query raises or its cleaned answer is empty.\<close>

definition yields_nothing :: "subprocess \<Rightarrow> string \<Rightarrow> string \<Rightarrow> bool" where
  "yields_nothing proc name ns =
     (case run proc (txt_cmd ns name) of Inl e \<Rightarrow> True | Inr out \<Rightarrow> clean_dig_txt out = [])"

text \<open>
  A file hashes to a digest when its content can be read and its lower-cased hex digest
  is that digest. The files a function hashed are the digests among its reads. The glob
  pattern of the candidates of an export directory.
\<close>

definition hashes_to :: "filesystem \<Rightarrow> string \<Rightarrow> string \<Rightarrow> bool" where
  "hashes_to fs f sha = (case fs_sha256 fs f of Inl e \<Rightarrow> False | Inr h \<Rightarrow> py_lower h = sha)"

fun hashed_files :: "fs_op list \<Rightarrow> string list" where
  "hashed_files [] = []"
| "hashed_files (Sha256File f # ops) = f # hashed_files ops"
| "hashed_files (op # ops) = hashed_files ops"

definition candidates_pattern :: "string \<Rightarrow> string" where
  "candidates_pattern export_dir = path_join export_dir ''heartbeats_*.json''"

text \<open>The modification time of a readable path.\<close>

definition mtime_of :: "filesystem \<Rightarrow> string \<Rightarrow> real" where
  "mtime_of fs f = (case fs_getmtime fs f of Inl e \<Rightarrow> 0 | Inr m \<Rightarrow> m)"

text \<open>The filename hint selects a file: the first tier of \<^verbatim>\<open>find_local_match\<close> returns.\<close>

definition hint_selects :: "filesystem \<Rightarrow> string \<Rightarrow> DnsProof \<Rightarrow> bool" where
  "hint_selects fs export_dir p =
     (case filename p of
        None \<Rightarrow> False
      | Some fname \<Rightarrow> fname \<noteq> [] \<and> fs_exists fs (path_join export_dir fname))"

text \<open>
  A command names its server when one of its arguments starts with \<^verbatim>\<open>@\<close>; a
  \<^verbatim>\<open>dig\<close> command that names no server is answered by the system's default resolver.
\<close>

definition names_server :: "cmd \<Rightarrow> bool" where
  "names_server cmd = list_ex (startswith ''@'') cmd"

text \<open>The calendar of the \<^verbatim>\<open>datetime\<close> module: proleptic Gregorian, day 1 is 0001-01-01.\<close>

definition is_leap :: "nat \<Rightarrow> bool" where
  "is_leap y = (y mod 4 = 0 \<and> (y mod 100 \<noteq> 0 \<or> y mod 400 = 0))"

definition days_in_month :: "nat \<Rightarrow> nat \<Rightarrow> nat" where
  "days_in_month y m =
     (if m = 2 then (if is_leap y then 29 else 28)
      else if m = 4 \<or> m = 6 \<or> m = 9 \<or> m = 11 then 30
      else 31)"

definition days_before_year :: "nat \<Rightarrow> nat" where
  "days_before_year y = (y - 1) * 365 + (y - 1) div 4 - (y - 1) div 100 + (y - 1) div 400"

definition days_before_month :: "nat \<Rightarrow> nat \<Rightarrow> nat" where
  "days_before_month y m = sum_list (map (days_in_month y) [1..<m])"

definition ymd2ord :: "nat \<Rightarrow> nat \<Rightarrow> nat \<Rightarrow> nat" where
  "ymd2ord y m d = days_before_year y + days_before_month y m + d"

text \<open>
  The whole seconds from 1970-01-01T00:00:00 to the wall-clock fields, both read on the
  same clock: the Unix epoch seconds of the fields read as UTC. Day 719163 is 1970-01-01.
\<close>

definition wall_seconds :: "datetime \<Rightarrow> int" where
  "wall_seconds dt =
     (int (ymd2ord (year dt) (month dt) (day dt)) - 719163) * 86400 +
     int (hour dt) * 3600 + int (minute dt) * 60 + int (second dt)"

text \<open>
  The host's time zone: the UTC offset in seconds that the host's local time has at a
  wall-clock reading (given as the seconds \<open>wall_seconds\<close> counts). A library reads
  the zones on such a host when, for a whole-second datetime on which \<^verbatim>\<open>timestamp()\<close>
  returns, the result is the wall clock itself for a datetime of UTC offset zero, and the
  wall clock minus the host's offset for a naive datetime: the documented behaviour of
  \<^verbatim>\<open>timestamp()\<close>, which takes a naive datetime as local time.
\<close>

type_synonym hostzone = "int \<Rightarrow> int"


section \<open>Example worlds\<close>

text \<open>
  A zone with two nameservers: the first cannot be reached (the command exits with
  status 9), the second answers with an empty payload. No variable is set in the
  environment \<open>no_environ\<close>.
\<close>

definition no_environ :: environ where
  "no_environ key = None"

definition silent_dns :: subprocess where
  "silent_dns cmd =
     (if cmd = ns_cmd ''uptimeproof.io''
      then Inr \<lparr>returncode = 0,
                stdout = ''ns1.example.net.'' @ [NEWLINE] @ ''ns2.example.net.'' @ [NEWLINE],
                stderr = []\<rparr>
      else if cmd = txt_cmd ''ns1.example.net'' ''_poa.uptimeproof.io''
      then Inr \<lparr>returncode = 9, stdout = [], stderr = ''no servers could be reached''\<rparr>
      else Inr \<lparr>returncode = 0, stdout = [], stderr = []\<rparr>)"

text \<open>A host whose resolver cannot be reached: every command exits with status 9.\<close>

definition failing_lookup_dns :: subprocess where
  "failing_lookup_dns cmd =
     Inr \<lparr>returncode = 9, stdout = [],
          stderr = ''connection timed out; no servers could be reached''\<rparr>"

text \<open>An environment whose nameserver override names one host with its root dot.\<close>

definition override_environ :: environ where
  "override_environ key =
     (if key = ''POA_DNS_NS_OVERRIDE'' then Some ''ns1.example.net., ns2.example.net'' else None)"

text \<open>
  A plain hostname: not empty, no comma, no whitespace at either end, no dot at the end.
\<close>

definition plain_hostname :: "string \<Rightarrow> bool" where
  "plain_hostname e =
     (e \<noteq> [] \<and> CHR '','' \<notin> set e \<and> \<not> py_isspace (hd e) \<and> \<not> py_isspace (last e) \<and>
      last e \<noteq> CHR ''.'')"

text \<open>
  An export directory with two evidence files. The proof's hash is the digest of the
  newer file; \<open>hinted_proof\<close> names the older file, \<open>dangling_proof\<close> names a file
  that does not exist.
\<close>

definition small_fs :: filesystem where
  "small_fs =
     \<lparr>fs_exists = (\<lambda>path. path = ''/proof/exports/heartbeats_20240101.json'' \<or>
                          path = ''/proof/exports/heartbeats_20240102.json''),
      fs_glob = (\<lambda>pattern.
         if pattern = ''/proof/exports/heartbeats_*.json''
         then [''/proof/exports/heartbeats_20240101.json'',
               ''/proof/exports/heartbeats_20240102.json'']
         else []),
      fs_getmtime = (\<lambda>path.
         if path = ''/proof/exports/heartbeats_20240101.json'' then Inr 1704067200
         else if path = ''/proof/exports/heartbeats_20240102.json'' then Inr 1704153600
         else Inl (OSError ''No such file or directory'')),
      fs_sha256 = (\<lambda>path.
         if path = ''/proof/exports/heartbeats_20240101.json''
         then Inr ''1111111111111111111111111111111111111111111111111111111111111111''
         else if path = ''/proof/exports/heartbeats_20240102.json''
         then Inr ''2222222222222222222222222222222222222222222222222222222222222222''
         else Inl (OSError ''No such file or directory''))\<rparr>"

definition hinted_proof :: DnsProof where
  "hinted_proof =
     \<lparr>ts_iso = ''2024-01-02T00:00:00Z'',
      sha256 = ''2222222222222222222222222222222222222222222222222222222222222222'',
      filename = Some ''heartbeats_20240101.json''\<rparr>"

definition dangling_proof :: DnsProof where
  "dangling_proof =
     \<lparr>ts_iso = ''2024-01-02T00:00:00Z'',
      sha256 = ''2222222222222222222222222222222222222222222222222222222222222222'',
      filename = Some ''heartbeats_20231231.json''\<rparr>"

text \<open>
  An export directory with 301 evidence files, numbered 0 to 300 and listed by the glob
  from the oldest to the newest; file \<open>i\<close> was modified \<open>i\<close> minutes after a common
  instant. The proof's hash is the digest of file 0, the oldest.
\<close>

definition heartbeat_path :: "nat \<Rightarrow> string" where
  "heartbeat_path i = ''/proof/exports/heartbeats_'' @ str_nat i @ ''.json''"

definition heartbeat_number :: "string \<Rightarrow> nat" where
  "heartbeat_number path =
     foldl (\<lambda>n c. 10 * n + (of_char c - 48)) 0
       (takeWhile (\<lambda>c. c \<in> set ''0123456789'') (drop 26 path))"

definition crowded_fs :: filesystem where
  "crowded_fs =
     \<lparr>fs_exists = (\<lambda>path. path \<in> set (map heartbeat_path [0..<301])),
      fs_glob = (\<lambda>pattern.
         if pattern = ''/proof/exports/heartbeats_*.json'' then map heartbeat_path [0..<301]
         else []),
      fs_getmtime = (\<lambda>path. Inr (1704067200 + 60 * real (heartbeat_number path))),
      fs_sha256 = (\<lambda>path.
         if path = heartbeat_path 0
         then Inr ''0000000000000000000000000000000000000000000000000000000000000000''
         else Inr ''ffffffffffffffffffffffffffffffffffffffffffffffffffffffffffffffff'')\<rparr>"

definition oldest_proof :: DnsProof where
  "oldest_proof =
     \<lparr>ts_iso = ''2024-01-01T00:00:00Z'',
      sha256 = ''0000000000000000000000000000000000000000000000000000000000000000'',
      filename = None\<rparr>"


definition utc_host :: hostzone where
  "utc_host w = 0"

definition table_fromisoformat :: "string \<Rightarrow> exn + datetime" where
  "table_fromisoformat s =
     (if s = ''2024-01-01T00:00:00+00:00''
      then Inr \<lparr>year = 2024, month = 1, day = 1, hour = 0, minute = 0, second = 0,
                microsecond = 0, utcoffset = Some 0\<rparr>
      else if s = ''2024-01-01T02:00:00+00:00''
      then Inr \<lparr>year = 2024, month = 1, day = 1, hour = 2, minute = 0, second = 0,
                microsecond = 0, utcoffset = Some 0\<rparr>
      else if s = ''2024-01-01T00:00:00''
      then Inr \<lparr>year = 2024, month = 1, day = 1, hour = 0, minute = 0, second = 0,
                microsecond = 0, utcoffset = None\<rparr>
      else Inl (ValueError (''Invalid isoformat string: '' @ [CHR 0x27] @ s @ [CHR 0x27])))"

definition zone_timestamp :: "hostzone \<Rightarrow> datetime \<Rightarrow> exn + real" where
  "zone_timestamp tz dt =
     (if year dt < 1970 \<or> 2037 < year dt then Inl (ValueError ''year out of range'')
      else Inr (case utcoffset dt of
                  None \<Rightarrow>
                    of_int (wall_seconds dt - tz (wall_seconds dt)) + real (microsecond dt) / 1000000
                | Some off \<Rightarrow>
                    of_int (wall_seconds dt) + real (microsecond dt) / 1000000 - off))"

definition example_lib :: "hostzone \<Rightarrow> pylib" where
  "example_lib tz = \<lparr>lib_fromisoformat = table_fromisoformat, lib_timestamp = zone_timestamp tz\<rparr>"

text \<open>
  Worlds for the orchestrator. In \<open>unreachable_world\<close> no nameserver answers. In
  \<open>malformed_world\<close> the first nameserver publishes a TXT record without a hash. In
  \<open>healthy_world\<close> it publishes the digest and name of an evidence file modified five
  minutes after the published instant; in \<open>stale_world\<close> the published instant is two
  hours later, in \<open>tampered_world\<close> the published digest is another one, and in
  \<open>unmatched_world\<close> it is another one and no file is named. The host is on UTC and
  no configuration file exists.
\<close>

definition answering_dns :: "string \<Rightarrow> subprocess" where
  "answering_dns txt cmd =
     (if cmd = ns_cmd ''uptimeproof.io''
      then Inr \<lparr>returncode = 0, stdout = ''ns1.example.net.'' @ [NEWLINE], stderr = []\<rparr>
      else if cmd = txt_cmd ''ns1.example.net'' ''_poa.uptimeproof.io''
      then Inr \<lparr>returncode = 0, stdout = [DQUOTE] @ txt @ [DQUOTE] @ [NEWLINE], stderr = []\<rparr>
      else Inr \<lparr>returncode = 0, stdout = [], stderr = []\<rparr>)"

definition evidence_fs :: filesystem where
  "evidence_fs =
     \<lparr>fs_exists = (\<lambda>path. path = ''/proof/exports/heartbeats_20240101.json''),
      fs_glob = (\<lambda>pattern.
         if pattern = ''/proof/exports/heartbeats_*.json''
         then [''/proof/exports/heartbeats_20240101.json''] else []),
      fs_getmtime = (\<lambda>path.
         if path = ''/proof/exports/heartbeats_20240101.json'' then Inr 1704067500
         else Inl (OSError ''No such file or directory'')),
      fs_sha256 = (\<lambda>path.
         if path = ''/proof/exports/heartbeats_20240101.json''
         then Inr ''1111111111111111111111111111111111111111111111111111111111111111''
         else Inl (OSError ''No such file or directory''))\<rparr>"

definition world_with :: "subprocess \<Rightarrow> world" where
  "world_with proc =
     \<lparr>w_text_file = (\<lambda>path. None), w_environ = no_environ, w_proc = proc,
      w_fs = evidence_fs, w_lib = example_lib utc_host\<rparr>"

definition unreachable_world :: world where
  "unreachable_world = world_with silent_dns"

definition malformed_world :: world where
  "malformed_world = world_with (answering_dns ''TS=2024-01-01T00:00:00Z;FILE=x.json'')"

definition healthy_world :: world where
  "healthy_world = world_with (answering_dns
     ''TS=2024-01-01T00:00:00Z;SHA256=1111111111111111111111111111111111111111111111111111111111111111;FILE=heartbeats_20240101.json'')"

definition stale_world :: world where
  "stale_world = world_with (answering_dns
     ''TS=2024-01-01T02:00:00Z;SHA256=1111111111111111111111111111111111111111111111111111111111111111;FILE=heartbeats_20240101.json'')"

definition tampered_world :: world where
  "tampered_world = world_with (answering_dns
     ''TS=2024-01-01T00:00:00Z;SHA256=2222222222222222222222222222222222222222222222222222222222222222;FILE=heartbeats_20240101.json'')"

definition unmatched_world :: world where
  "unmatched_world = world_with (answering_dns
     ''TS=2024-01-01T00:00:00Z;SHA256=2222222222222222222222222222222222222222222222222222222222222222'')"

section \<open>Theorems\<close>

text \<open>
  C1. For every boolean \<open>hash_ok\<close> and every integer \<open>skew\<close>, the verdict is FAIL
  when \<open>hash_ok\<close> is false, whatever the skew; OK when \<open>hash_ok\<close> is true and
  \<open>|skew| \<le> 600\<close>; and WARN when \<open>hash_ok\<close> is true and \<open>|skew| > 600\<close>, in the
  moderate band (\<open>|skew| \<le> 3600\<close>) and in the extreme band (\<open>|skew| > 3600\<close>) alike.
\<close>

theorem verdict_matrix:
  "verdict_from_hash_and_skew False skew = ''FAIL'' \<and>
   (\<bar>skew\<bar> \<le> 600 \<longrightarrow> verdict_from_hash_and_skew True skew = ''OK'') \<and>
   (600 < \<bar>skew\<bar> \<and> \<bar>skew\<bar> \<le> 3600 \<longrightarrow> verdict_from_hash_and_skew True skew = ''WARN'') \<and>
   (3600 < \<bar>skew\<bar> \<longrightarrow> verdict_from_hash_and_skew True skew = ''WARN'') \<and>
   verdict_from_hash_and_skew True skew \<noteq> ''FAIL''"
  by (simp add: verdict_from_hash_and_skew_def WARN_SKEW_SECONDS_def FAIL_SKEW_SECONDS_def)

theorem verdict_matrix_witness:
  "verdict_from_hash_and_skew False 0 = ''FAIL'' \<and>
   verdict_from_hash_and_skew True 0 = ''OK'' \<and>
   verdict_from_hash_and_skew True 600 = ''OK'' \<and>
   verdict_from_hash_and_skew True 601 = ''WARN'' \<and>
   verdict_from_hash_and_skew True 3600 = ''WARN'' \<and>
   verdict_from_hash_and_skew True 3601 = ''WARN'' \<and>
   verdict_from_hash_and_skew True (- 700) = ''WARN''"
  using verdict_matrix [of 0] verdict_matrix [of 600] verdict_matrix [of 601]
    verdict_matrix [of 3600] verdict_matrix [of 3601] verdict_matrix [of "- 700"]
  by simp

subsection \<open>Quoted segments and trimming\<close>


lemma count_quotes_none:
  "(\<forall>x\<in>set cs. x \<noteq> DQUOTE) \<Longrightarrow> filter (\<lambda>c. c = DQUOTE) cs = []"
  by (simp add: filter_empty_conv)

lemma findall_quoted_skip:
  "DQUOTE \<notin> set a \<Longrightarrow> findall_quoted (a @ x) = findall_quoted x"
proof (induction a)
  case Nil
  then show ?case by simp
next
  case (Cons c a)
  then have "c \<noteq> DQUOTE" by auto
  with Cons show ?case by simp
qed

lemma findall_quoted_segment:
  "DQUOTE \<notin> set seg \<Longrightarrow>
   findall_quoted (DQUOTE # seg @ DQUOTE # x) = seg # findall_quoted x"
proof -
  assume a: "DQUOTE \<notin> set seg"
  then have n: "\<forall>y\<in>set seg. y \<noteq> DQUOTE" by blast
  then have d: "dropWhile (\<lambda>x. x \<noteq> DQUOTE) (seg @ DQUOTE # x) = DQUOTE # x"
    by (simp add: dropWhile_append3)
  from n have t: "takeWhile (\<lambda>x. x \<noteq> DQUOTE) (seg @ DQUOTE # x) = seg"
    by (simp add: takeWhile_append2)
  show ?thesis by (simp add: d t)
qed

lemma findall_quoted_nil_iff:
  "findall_quoted s = [] \<longleftrightarrow> length (filter (\<lambda>c. c = DQUOTE) s) < 2"
proof (induction s rule: findall_quoted.induct)
  case 1
  then show ?case by simp
next
  case (2 c cs)
  show ?case
  proof (cases "c = DQUOTE")
    case True
    show ?thesis
    proof (cases "dropWhile (\<lambda>x. x \<noteq> DQUOTE) cs")
      case Nil
      then have "\<forall>x\<in>set cs. x \<noteq> DQUOTE" by (simp add: dropWhile_eq_Nil_conv)
      then have "filter (\<lambda>c. c = DQUOTE) cs = []" by (rule count_quotes_none)
      then show ?thesis by (simp add: True Nil)
    next
      case (Cons q rest)
      have "\<not> (\<forall>x\<in>set cs. x \<noteq> DQUOTE)"
      proof
        assume "\<forall>x\<in>set cs. x \<noteq> DQUOTE"
        then have "dropWhile (\<lambda>x. x \<noteq> DQUOTE) cs = []" by simp
        with Cons show False by simp
      qed
      then have "filter (\<lambda>c. c = DQUOTE) cs \<noteq> []" by (simp add: filter_empty_conv)
      then have "0 < length (filter (\<lambda>c. c = DQUOTE) cs)" by simp
      then show ?thesis by (simp add: True Cons)
    qed
  next
    case False
    with 2 show ?thesis by simp
  qed
qed



lemma findall_quoted_layout:
  assumes "\<forall>p\<in>set pairs. DQUOTE \<notin> set (fst p) \<and> DQUOTE \<notin> set (snd p)"
    and "length (filter (\<lambda>c. c = DQUOTE) tail) < 2"
  shows "findall_quoted (quoted_layout pairs tail) = map snd pairs"
  using assms
proof (induction pairs)
  case Nil
  then show ?case by (simp add: findall_quoted_nil_iff quoted_layout_def)
next
  case (Cons p ps)
  then have ih: "findall_quoted (quoted_layout ps tail) = map snd ps" by simp
  from Cons.prems have g: "DQUOTE \<notin> set (fst p)" and s: "DQUOTE \<notin> set (snd p)" by simp_all
  have "quoted_layout (p # ps) tail = fst p @ (DQUOTE # snd p @ DQUOTE # quoted_layout ps tail)"
    by (simp add: quoted_layout_def)
  then show ?case
    by (simp only: findall_quoted_skip [OF g] findall_quoted_segment [OF s] ih list.map)
qed

lemma py_strip_lead:
  "list_all py_isspace a \<Longrightarrow> py_strip (a @ x) = py_strip x"
  by (induction a) (simp_all add: py_strip_def)

lemma py_rstrip_trail:
  "list_all P b \<Longrightarrow> py_rstrip_by P (x @ b) = py_rstrip_by P x"
  by (induction b rule: rev_induct) (simp_all add: py_rstrip_by_def)




lemma dropWhile_all: "list_all P x \<Longrightarrow> dropWhile P x = []"
  by (simp add: list_all_iff)

lemma py_strip_trail:
  assumes b: "list_all py_isspace b"
  shows "py_strip (x @ b) = py_strip x"
proof (cases "list_all py_isspace x")
  case True
  with b have "list_all py_isspace (x @ b)" by simp
  then have e1: "dropWhile py_isspace (x @ b) = []" by (rule dropWhile_all)
  from True have e2: "dropWhile py_isspace x = []" by (rule dropWhile_all)
  show ?thesis by (simp only: py_strip_def e1 e2)
next
  case False
  then obtain y where "y \<in> set x" and "\<not> py_isspace y"
    by (auto simp: list_all_iff)
  then have "dropWhile py_isspace (x @ b) = dropWhile py_isspace x @ b"
    by (rule dropWhile_append1)
  with b show ?thesis by (simp add: py_strip_def py_rstrip_trail)
qed

lemma py_strip_decompose:
  "\<exists>a b. s = a @ py_strip s @ b \<and> list_all py_isspace a \<and> list_all py_isspace b"
proof -
  let ?a = "takeWhile py_isspace s"
  let ?m = "dropWhile py_isspace s"
  let ?b = "rev (takeWhile py_isspace (rev ?m))"
  have "rev ?m = takeWhile py_isspace (rev ?m) @ dropWhile py_isspace (rev ?m)"
    by simp
  then have "rev (rev ?m) = rev (dropWhile py_isspace (rev ?m)) @ ?b"
    by (simp only: rev_append [symmetric])
  then have m: "?m = py_strip s @ ?b"
    by (simp add: py_strip_def py_rstrip_by_def)
  have "s = ?a @ ?m" by simp
  with m have "s = ?a @ py_strip s @ ?b" by simp
  moreover have "list_all py_isspace ?a"
    unfolding list_all_iff using set_takeWhileD by fast
  moreover have "list_all py_isspace ?b"
    unfolding list_all_iff using set_takeWhileD by fastforce
  ultimately show ?thesis by blast
qed




lemma isspace_not_quote: "py_isspace c \<Longrightarrow> c \<noteq> DQUOTE"
  by (auto simp: py_isspace_def DQUOTE_def)

lemma spaces_no_quote: "list_all py_isspace b \<Longrightarrow> DQUOTE \<notin> set b"
  using isspace_not_quote by (auto simp: list_all_iff)

lemma findall_quoted_no_quote: "DQUOTE \<notin> set b \<Longrightarrow> findall_quoted b = []"
proof -
  assume "DQUOTE \<notin> set b"
  then have "filter (\<lambda>c. c = DQUOTE) b = []" by (auto simp: filter_empty_conv)
  then show ?thesis by (simp add: findall_quoted_nil_iff)
qed

lemma findall_quoted_trail:
  assumes b: "DQUOTE \<notin> set b"
  shows "findall_quoted (x @ b) = findall_quoted x"
proof (induction x rule: findall_quoted.induct)
  case 1
  from b show ?case by (simp add: findall_quoted_no_quote)
next
  case (2 c cs)
  show ?case
  proof (cases "c = DQUOTE")
    case True
    show ?thesis
    proof (cases "dropWhile (\<lambda>x. x \<noteq> DQUOTE) cs")
      case Nil
      then have "\<forall>x\<in>set cs. x \<noteq> DQUOTE" by (simp add: dropWhile_eq_Nil_conv)
      with b have "\<forall>x\<in>set (cs @ b). x \<noteq> DQUOTE" by auto
      then have e: "dropWhile (\<lambda>x. x \<noteq> DQUOTE) (cs @ b) = []"
        by (simp only: dropWhile_eq_Nil_conv)
      show ?thesis by (simp add: True Nil e)
    next
      case (Cons q rest)
      have "\<not> (\<forall>x\<in>set cs. x \<noteq> DQUOTE)"
      proof
        assume "\<forall>x\<in>set cs. x \<noteq> DQUOTE"
        then have "dropWhile (\<lambda>x. x \<noteq> DQUOTE) cs = []" by simp
        with Cons show False by simp
      qed
      then obtain y where y: "y \<in> set cs" "\<not> y \<noteq> DQUOTE" by blast
      then have d: "dropWhile (\<lambda>x. x \<noteq> DQUOTE) (cs @ b) = dropWhile (\<lambda>x. x \<noteq> DQUOTE) cs @ b"
        by (rule dropWhile_append1)
      from y have t: "takeWhile (\<lambda>x. x \<noteq> DQUOTE) (cs @ b) = takeWhile (\<lambda>x. x \<noteq> DQUOTE) cs"
        by (rule takeWhile_append1)
      from 2(1) [OF True Cons] have ih: "findall_quoted (rest @ b) = findall_quoted rest" .
      show ?thesis by (simp add: True d t Cons ih)
    qed
  next
    case False
    with 2(2) show ?thesis by simp
  qed
qed

lemma findall_quoted_strip: "findall_quoted (py_strip s) = findall_quoted s"
proof -
  obtain a b where s: "s = a @ py_strip s @ b" and a: "list_all py_isspace a"
    and b: "list_all py_isspace b"
    using py_strip_decompose by blast
  have "findall_quoted (a @ py_strip s @ b) = findall_quoted (py_strip s)"
    by (simp add: findall_quoted_skip [OF spaces_no_quote [OF a]]
        findall_quoted_trail [OF spaces_no_quote [OF b]])
  with s show ?thesis by simp
qed

lemma py_replace_delete: "py_replace c [] s = filter (\<lambda>x. x \<noteq> c) s"
  by (induction s) (simp_all add: py_replace_def)

lemma filter_spaces: "list_all py_isspace a \<Longrightarrow> list_all py_isspace (filter P a)"
  by (simp add: list_all_iff)

lemma py_strip_filter_strip:
  "py_strip (filter P (py_strip s)) = py_strip (filter P s)"
proof -
  obtain a b where s: "s = a @ py_strip s @ b" and a: "list_all py_isspace a"
    and b: "list_all py_isspace b"
    using py_strip_decompose by blast
  have "py_strip (filter P (a @ py_strip s @ b)) = py_strip (filter P (py_strip s))"
    using py_strip_lead [OF filter_spaces [OF a]] py_strip_trail [OF filter_spaces [OF b]]
    by (metis append.assoc filter_append)
  with s show ?thesis by simp
qed




lemma quoted_layout_has_quote:
  "pairs \<noteq> [] \<Longrightarrow> DQUOTE \<in> set (quoted_layout pairs tail)"
  by (cases pairs) (simp_all add: quoted_layout_def)

lemma py_strip_nonempty:
  assumes "c \<in> set s" and "\<not> py_isspace c"
  shows "py_strip s \<noteq> []"
proof
  assume e: "py_strip s = []"
  obtain a b where s: "s = a @ py_strip s @ b" and a: "list_all py_isspace a"
    and b: "list_all py_isspace b"
    using py_strip_decompose by blast
  from s e have "s = a @ b" by simp
  with a b have "list_all py_isspace s" by (metis list_all_append)
  with assms show False by (simp add: list_all_iff)
qed

text \<open>
  C8, as amended. When the payload holds quoted segments, the result is their
  concatenation in order, with nothing between them, trimmed of surrounding whitespace.
  When the payload holds fewer than two quote characters (no quoted segment), the result
  is the payload with every quote removed and surrounding whitespace trimmed.
\<close>

theorem clean_dig_txt_normalizes:
  "(out = quoted_layout pairs tail \<and> pairs \<noteq> [] \<and>
    (\<forall>p\<in>set pairs. DQUOTE \<notin> set (fst p) \<and> DQUOTE \<notin> set (snd p)) \<and>
    length (filter (\<lambda>c. c = DQUOTE) tail) < 2 \<longrightarrow>
      clean_dig_txt out = py_strip (concat (map snd pairs))) \<and>
   (length (filter (\<lambda>c. c = DQUOTE) out) < 2 \<longrightarrow>
      clean_dig_txt out = py_strip (filter (\<lambda>c. c \<noteq> DQUOTE) out))"
proof (intro conjI impI)
  assume h: "out = quoted_layout pairs tail \<and> pairs \<noteq> [] \<and>
    (\<forall>p\<in>set pairs. DQUOTE \<notin> set (fst p) \<and> DQUOTE \<notin> set (snd p)) \<and>
    length (filter (\<lambda>c. c = DQUOTE) tail) < 2"
  then have f: "findall_quoted out = map snd pairs"
    by (simp add: findall_quoted_layout)
  from h have "DQUOTE \<in> set out" by (simp add: quoted_layout_has_quote)
  moreover have "\<not> py_isspace DQUOTE" using isspace_not_quote by blast
  ultimately have ne: "py_strip out \<noteq> []" by (rule py_strip_nonempty)
  from h have "map snd pairs \<noteq> []" by simp
  with f ne show "clean_dig_txt out = py_strip (concat (map snd pairs))"
    by (simp add: clean_dig_txt_def Let_def findall_quoted_strip)
next
  assume "length (filter (\<lambda>c. c = DQUOTE) out) < 2"
  then have f: "findall_quoted out = []" by (simp add: findall_quoted_nil_iff)
  show "clean_dig_txt out = py_strip (filter (\<lambda>c. c \<noteq> DQUOTE) out)"
  proof (cases "py_strip out = []")
    case True
    have e: "py_strip [] = []" by (simp add: py_strip_def py_rstrip_by_def)
    have "py_strip (filter (\<lambda>c. c \<noteq> DQUOTE) out) = py_strip (filter (\<lambda>c. c \<noteq> DQUOTE) (py_strip out))"
      by (simp only: py_strip_filter_strip)
    also have "\<dots> = []" by (simp only: True filter.simps e)
    finally have "py_strip (filter (\<lambda>c. c \<noteq> DQUOTE) out) = []" .
    with True show ?thesis by (simp add: clean_dig_txt_def)
  next
    case False
    with f show ?thesis
      by (simp add: clean_dig_txt_def Let_def findall_quoted_strip py_replace_delete
          py_strip_filter_strip)
  qed
qed

theorem clean_dig_txt_normalizes_witness:
  \<open>clean_dig_txt ''"TS=2024-01-01T00:00:00Z;SHA" "256=0123456789abcdef0123456789abcdef0123456789abcdef0123456789abcdef;FILE=x.json"''
     = ''TS=2024-01-01T00:00:00Z;SHA256=0123456789abcdef0123456789abcdef0123456789abcdef0123456789abcdef;FILE=x.json'' \<and>
   clean_dig_txt '' TS=1;FILE="x ''  = ''TS=1;FILE=x''\<close>
  using clean_dig_txt_normalizes [of
      \<open>''"TS=2024-01-01T00:00:00Z;SHA" "256=0123456789abcdef0123456789abcdef0123456789abcdef0123456789abcdef;FILE=x.json"''\<close>
      \<open>[([], ''TS=2024-01-01T00:00:00Z;SHA''), ('' '', ''256=0123456789abcdef0123456789abcdef0123456789abcdef0123456789abcdef;FILE=x.json'')]\<close>
      \<open>[]\<close>]
    clean_dig_txt_normalizes [of \<open>'' TS=1;FILE="x ''\<close> \<open>[]\<close> \<open>[]\<close>]
  by (simp add: quoted_layout_def DQUOTE_def py_strip_def py_rstrip_by_def py_isspace_def)

text \<open>
  The claim as stated fails on a segment that starts or ends with whitespace: the result
  is not the plain concatenation of the segments.
\<close>

theorem clean_dig_txt_not_plain_concat:
  \<open>findall_quoted ''" TS=1;FILE=x.json "'' = ['' TS=1;FILE=x.json ''] \<and>
   clean_dig_txt ''" TS=1;FILE=x.json "'' = ''TS=1;FILE=x.json'' \<and>
   clean_dig_txt ''" TS=1;FILE=x.json "'' \<noteq> concat (findall_quoted ''" TS=1;FILE=x.json "'')\<close>
  by (simp add: clean_dig_txt_def DQUOTE_def py_strip_def py_rstrip_by_def py_isspace_def)

subsection \<open>Field extraction\<close>


lemma marker_tokens_Nil: "lit \<noteq> [] \<Longrightarrow> marker_tokens lit [] = []"
  by (auto simp: marker_tokens_def startswith_def)

lemma marker_tokens_Cons:
  "marker_tokens lit (c # cs) =
     (if startswith lit (c # cs)
      then [takeWhile (\<lambda>c. c \<noteq> CHR '';'') (drop (length lit) (c # cs))] else [])
     @ marker_tokens lit cs"
  by (simp add: marker_tokens_def)

lemma re_search_find:
  assumes lit: "lit \<noteq> []"
    and grp: "\<And>r. grp r = (if P (takeWhile (\<lambda>c. c \<noteq> CHR '';'') r)
                              then Some (g (takeWhile (\<lambda>c. c \<noteq> CHR '';'') r)) else None)"
  shows "re_search lit grp t = map_option g (List.find P (marker_tokens lit t))"
proof (induction t)
  case Nil
  from lit show ?case by (simp add: marker_tokens_Nil)
next
  case (Cons c cs)
  show ?case
  proof (cases "startswith lit (c # cs)")
    case True
    then show ?thesis
      using Cons by (simp add: marker_tokens_Cons grp del: drop_Suc_Cons)
  next
    case False
    then show ?thesis
      using Cons by (simp add: marker_tokens_Cons)
  qed
qed

lemma group_non_semicolon_eq:
  "group_non_semicolon r =
     (if takeWhile (\<lambda>c. c \<noteq> CHR '';'') r \<noteq> []
      then Some (takeWhile (\<lambda>c. c \<noteq> CHR '';'') r) else None)"
  by (simp add: group_non_semicolon_def Let_def)

lemma leading_run:
  "(n \<le> length s \<and> list_all P (take n s)) \<longleftrightarrow> n \<le> length (takeWhile P s)"
proof (induction s arbitrary: n)
  case Nil
  then show ?case by simp
next
  case (Cons a s)
  then show ?case by (cases n) auto
qed

lemma take_leading_run:
  "n \<le> length (takeWhile P s) \<Longrightarrow> take n (takeWhile Q s) = take n s \<or> \<not> (\<forall>c. P c \<longrightarrow> Q c)"
proof (induction s arbitrary: n)
  case Nil
  then show ?case by simp
next
  case (Cons a s)
  then show ?case by (cases n) (auto split: if_splits)
qed

lemma takeWhile_narrow:
  "(\<And>c. P c \<Longrightarrow> Q c) \<Longrightarrow> takeWhile P (takeWhile Q s) = takeWhile P s"
  by (induction s) auto

lemma hex_not_semicolon: "is_hex_digit c \<Longrightarrow> c \<noteq> CHR '';''"
  by (auto simp: is_hex_digit_def)

lemma group_hex64_eq:
  "group_hex64 r =
     (if hash_token_leading (takeWhile (\<lambda>c. c \<noteq> CHR '';'') r)
      then Some (take 64 (takeWhile (\<lambda>c. c \<noteq> CHR '';'') r)) else None)"
proof -
  have a: "takeWhile is_hex_digit (takeWhile (\<lambda>c. c \<noteq> CHR '';'') r) = takeWhile is_hex_digit r"
    by (rule takeWhile_narrow) (rule hex_not_semicolon)
  have b: "(64 \<le> length r \<and> list_all is_hex_digit (take 64 r)) \<longleftrightarrow> 64 \<le> length (takeWhile is_hex_digit r)"
    by (rule leading_run)
  have c: "64 \<le> length (takeWhile is_hex_digit r) \<Longrightarrow>
      take 64 (takeWhile (\<lambda>c. c \<noteq> CHR '';'') r) = take 64 r"
    using take_leading_run [of 64 is_hex_digit r "\<lambda>c. c \<noteq> CHR '';''"] hex_not_semicolon
    by blast
  show ?thesis
    unfolding group_hex64_def hash_token_leading_def a b using c by simp
qed

lemma search_ts:
  "re_search ''TS='' group_non_semicolon t = List.find (\<lambda>tok. tok \<noteq> []) (marker_tokens ''TS='' t)"
  using re_search_find [of "''TS=''" group_non_semicolon "\<lambda>tok. tok \<noteq> []" "\<lambda>tok. tok" t]
  by (simp add: group_non_semicolon_eq option.map_ident)

lemma search_file:
  "re_search ''FILE='' group_non_semicolon t = List.find (\<lambda>tok. tok \<noteq> []) (marker_tokens ''FILE='' t)"
  using re_search_find [of "''FILE=''" group_non_semicolon "\<lambda>tok. tok \<noteq> []" "\<lambda>tok. tok" t]
  by (simp add: group_non_semicolon_eq option.map_ident)

lemma search_sha:
  "re_search ''SHA256='' group_hex64 t =
     map_option (take 64) (List.find hash_token_leading (marker_tokens ''SHA256='' t))"
  using re_search_find [of "''SHA256=''" group_hex64 hash_token_leading "take 64" t]
  by (simp add: group_hex64_eq)

lemma find_None_list_ex: "List.find P xs = None \<longleftrightarrow> \<not> list_ex P xs"
  by (auto simp: find_None_iff list_ex_iff)



text \<open>
  C5, as amended. With \<open>t\<close> the text trimmed of surrounding whitespace and then of
  surrounding quotes, parsing raises the format error exactly when \<open>t\<close> has no
  non-empty \<^verbatim>\<open>TS=\<close> token or no \<^verbatim>\<open>SHA256=\<close> marker followed by at least 64
  hexadecimal characters. On success the hash is the first 64 characters of the first
  such token, lower-cased, and the filename is absent exactly when \<open>t\<close> has no
  non-empty \<^verbatim>\<open>FILE=\<close> token.
\<close>

theorem parse_dns_txt_format:
  "(parse_dns_txt txt = Inl (RuntimeError (''Unrecognized TXT format: '' @ py_strip_chars [DQUOTE] (py_strip txt)))
      \<or> (\<exists>p. parse_dns_txt txt = Inr p)) \<and>
   ((\<exists>e. parse_dns_txt txt = Inl e) \<longleftrightarrow>
      \<not> has_ts_token (py_strip_chars [DQUOTE] (py_strip txt)) \<or>
      \<not> has_leading_hash_token (py_strip_chars [DQUOTE] (py_strip txt))) \<and>
   (\<forall>p. parse_dns_txt txt = Inr p \<longrightarrow>
      (\<exists>tok. List.find hash_token_leading
                (marker_tokens ''SHA256='' (py_strip_chars [DQUOTE] (py_strip txt))) = Some tok \<and>
             sha256 p = py_lower (take 64 tok)) \<and>
      (filename p = None \<longleftrightarrow> \<not> has_file_token (py_strip_chars [DQUOTE] (py_strip txt))))"
proof -
  define t where "t = py_strip_chars [DQUOTE] (py_strip txt)"
  have ts: "re_search ''TS='' group_non_semicolon t = None \<longleftrightarrow> \<not> has_ts_token t"
    by (simp add: search_ts find_None_list_ex has_ts_token_def)
  have sha: "re_search ''SHA256='' group_hex64 t = None \<longleftrightarrow> \<not> has_leading_hash_token t"
    by (simp add: search_sha find_None_list_ex has_leading_hash_token_def)
  have fl: "re_search ''FILE='' group_non_semicolon t = None \<longleftrightarrow> \<not> has_file_token t"
    by (simp add: search_file find_None_list_ex has_file_token_def)
  have p: "parse_dns_txt txt =
      (case re_search ''TS='' group_non_semicolon t of
         None \<Rightarrow> Inl (RuntimeError (''Unrecognized TXT format: '' @ t))
       | Some ts \<Rightarrow>
           (case re_search ''SHA256='' group_hex64 t of
              None \<Rightarrow> Inl (RuntimeError (''Unrecognized TXT format: '' @ t))
            | Some sha \<Rightarrow>
                Inr \<lparr>ts_iso = ts, sha256 = py_lower sha,
                     filename = re_search ''FILE='' group_non_semicolon t\<rparr>))"
    unfolding parse_dns_txt_def Let_def t_def by (rule refl)
  have c1: "parse_dns_txt txt = Inl (RuntimeError (''Unrecognized TXT format: '' @ t))
      \<or> (\<exists>p. parse_dns_txt txt = Inr p)"
    unfolding p by (simp split: option.split)
  have c2: "(\<exists>e. parse_dns_txt txt = Inl e) \<longleftrightarrow> \<not> has_ts_token t \<or> \<not> has_leading_hash_token t"
    unfolding p ts [symmetric] sha [symmetric] by (simp split: option.split)
  have c3: "\<forall>p. parse_dns_txt txt = Inr p \<longrightarrow>
      (\<exists>tok. List.find hash_token_leading (marker_tokens ''SHA256='' t) = Some tok \<and>
             sha256 p = py_lower (take 64 tok)) \<and>
      (filename p = None \<longleftrightarrow> \<not> has_file_token t)"
    unfolding p fl [symmetric]
    by (auto simp: search_sha split: option.splits)
  from c1 c2 c3 show ?thesis unfolding t_def by blast
qed




theorem parse_dns_txt_format_witness:
  "has_ts_token (py_strip_chars [DQUOTE] (py_strip
      ''TS=2024-01-01T00:00:00Z;SHA256=0123456789ABCDEF0123456789abcdef0123456789ABCDEF0123456789abcdef'')) \<and>
   has_leading_hash_token (py_strip_chars [DQUOTE] (py_strip
      ''TS=2024-01-01T00:00:00Z;SHA256=0123456789ABCDEF0123456789abcdef0123456789ABCDEF0123456789abcdef'')) \<and>
   \<not> has_file_token (py_strip_chars [DQUOTE] (py_strip
      ''TS=2024-01-01T00:00:00Z;SHA256=0123456789ABCDEF0123456789abcdef0123456789ABCDEF0123456789abcdef'')) \<and>
   (\<exists>p. parse_dns_txt
      ''TS=2024-01-01T00:00:00Z;SHA256=0123456789ABCDEF0123456789abcdef0123456789ABCDEF0123456789abcdef'' = Inr p \<and>
      sha256 p = ''0123456789abcdef0123456789abcdef0123456789abcdef0123456789abcdef'' \<and>
      filename p = None) \<and>
   has_ts_token (py_strip_chars [DQUOTE] (py_strip ''TS=2024-01-01T00:00:00Z;FILE=x.json'')) \<and>
   \<not> has_leading_hash_token (py_strip_chars [DQUOTE] (py_strip ''TS=2024-01-01T00:00:00Z;FILE=x.json'')) \<and>
   parse_dns_txt ''TS=2024-01-01T00:00:00Z;FILE=x.json'' =
     Inl (RuntimeError ''Unrecognized TXT format: TS=2024-01-01T00:00:00Z;FILE=x.json'')"
proof -
  let ?t1 = "''TS=2024-01-01T00:00:00Z;SHA256=0123456789ABCDEF0123456789abcdef0123456789ABCDEF0123456789abcdef''"
  let ?t2 = "''TS=2024-01-01T00:00:00Z;FILE=x.json''"
  have a1: "has_ts_token (py_strip_chars [DQUOTE] (py_strip ?t1))" by code_simp
  have a2: "has_leading_hash_token (py_strip_chars [DQUOTE] (py_strip ?t1))" by code_simp
  have a3: "\<not> has_file_token (py_strip_chars [DQUOTE] (py_strip ?t1))" by code_simp
  have a4: "List.find hash_token_leading
      (marker_tokens ''SHA256='' (py_strip_chars [DQUOTE] (py_strip ?t1))) =
      Some ''0123456789ABCDEF0123456789abcdef0123456789ABCDEF0123456789abcdef''"
    by code_simp
  have a5: "py_lower (take 64 ''0123456789ABCDEF0123456789abcdef0123456789ABCDEF0123456789abcdef'') =
      ''0123456789abcdef0123456789abcdef0123456789abcdef0123456789abcdef''"
    by code_simp
  have b1: "has_ts_token (py_strip_chars [DQUOTE] (py_strip ?t2))" by code_simp
  have b2: "\<not> has_leading_hash_token (py_strip_chars [DQUOTE] (py_strip ?t2))" by code_simp
  have b3: "py_strip_chars [DQUOTE] (py_strip ?t2) = ?t2" by code_simp
  note T1 = parse_dns_txt_format [of ?t1]
  note T2 = parse_dns_txt_format [of ?t2]
  from T1 a1 a2 obtain p where p: "parse_dns_txt ?t1 = Inr p" by blast
  with T1 a3 a4 have "sha256 p = py_lower (take 64 ''0123456789ABCDEF0123456789abcdef0123456789ABCDEF0123456789abcdef'')"
    and f: "filename p = None" by auto
  with a5 have s: "sha256 p = ''0123456789abcdef0123456789abcdef0123456789abcdef0123456789abcdef''"
    by simp
  from T2 b2 have "\<exists>e. parse_dns_txt ?t2 = Inl e" by blast
  with T2 have "parse_dns_txt ?t2 =
      Inl (RuntimeError (''Unrecognized TXT format: '' @ py_strip_chars [DQUOTE] (py_strip ?t2)))"
    by auto
  then have e: "parse_dns_txt ?t2 = Inl (RuntimeError ''Unrecognized TXT format: TS=2024-01-01T00:00:00Z;FILE=x.json'')"
    unfolding b3 by simp
  from a1 a2 a3 p s f b1 b2 e show ?thesis by blast
qed

text \<open>
  The claim as stated fails on a hash token of 65 hexadecimal characters: the text has
  no hash token of exactly 64 hexadecimal characters, and parsing succeeds with the
  first 64.
\<close>

theorem parse_dns_txt_accepts_long_hash:
  "py_strip_chars [DQUOTE] (py_strip ''TS=2024-01-01T00:00:00Z;SHA256=0123456789abcdef0123456789abcdef0123456789abcdef0123456789abcdef0'')
     = ''TS=2024-01-01T00:00:00Z;SHA256=0123456789abcdef0123456789abcdef0123456789abcdef0123456789abcdef0'' \<and>
   marker_tokens ''SHA256='' ''TS=2024-01-01T00:00:00Z;SHA256=0123456789abcdef0123456789abcdef0123456789abcdef0123456789abcdef0''
     = [''0123456789abcdef0123456789abcdef0123456789abcdef0123456789abcdef0''] \<and>
   \<not> has_exact_hash_token ''TS=2024-01-01T00:00:00Z;SHA256=0123456789abcdef0123456789abcdef0123456789abcdef0123456789abcdef0'' \<and>
   parse_dns_txt ''TS=2024-01-01T00:00:00Z;SHA256=0123456789abcdef0123456789abcdef0123456789abcdef0123456789abcdef0'' =
     Inr \<lparr>ts_iso = ''2024-01-01T00:00:00Z'',
          sha256 = ''0123456789abcdef0123456789abcdef0123456789abcdef0123456789abcdef'',
          filename = None\<rparr>"
  by code_simp

subsection \<open>Nameserver list and TXT fetch\<close>

lemma try_nameservers_nothing:
  "\<forall>ns\<in>set ns_list. yields_nothing proc name ns \<Longrightarrow>
   try_nameservers proc name le ns_list =
     (map (\<lambda>ns. txt_cmd ns name) ns_list, None,
      (case last_observed (observed_errors proc name ns_list) of
         None \<Rightarrow> le
       | Some e \<Rightarrow> Some e))"
proof (induction ns_list arbitrary: le)
  case Nil
  then show ?case by (simp add: observed_errors_def last_observed_def)
next
  case (Cons ns rest)
  then have y: "yields_nothing proc name ns"
    and r: "\<forall>ns\<in>set rest. yields_nothing proc name ns" by simp_all
  show ?case
  proof (cases "run proc (txt_cmd ns name)")
    case (Inl e)
    have o: "observed_errors proc name (ns # rest) = e # observed_errors proc name rest"
      by (simp add: observed_errors_def map_filter_simps Inl)
    show ?thesis
      by (simp add: Inl Cons.IH [OF r] o last_observed_def)
  next
    case (Inr out)
    with y have c: "clean_dig_txt out = []" by (simp add: yields_nothing_def)
    have o: "observed_errors proc name (ns # rest) = observed_errors proc name rest"
      by (simp add: observed_errors_def map_filter_simps Inr)
    show ?thesis
      by (simp add: Inr c Cons.IH [OF r] o)
  qed
qed

lemma try_nameservers_commands:
  "set (fst (try_nameservers proc name le ns_list)) \<subseteq> (\<lambda>ns. txt_cmd ns name) ` set ns_list"
proof (induction ns_list arbitrary: le)
  case Nil
  then show ?case by simp
next
  case (Cons ns rest)
  show ?case
  proof (cases "run proc (txt_cmd ns name)")
    case (Inl e)
    with Cons [of "Some e"] show ?thesis by (auto split: prod.splits)
  next
    case (Inr out)
    with Cons [of le] show ?thesis by (auto split: prod.splits)
  qed
qed

lemma txt_cmd_not_system: "txt_cmd ns name \<noteq> system_txt_cmd name'"
  by (simp add: txt_cmd_def system_txt_cmd_def)

lemma txt_cmd_not_ns_lookup: "\<not> is_ns_lookup (txt_cmd ns name)"
  by (simp add: txt_cmd_def is_ns_lookup_def)

lemma system_txt_cmd_not_ns_lookup: "\<not> is_ns_lookup (system_txt_cmd name)"
  by (simp add: system_txt_cmd_def is_ns_lookup_def)

lemma ns_cmd_not_system: "ns_cmd zone \<noteq> system_txt_cmd name"
  by (simp add: ns_cmd_def system_txt_cmd_def)

lemma txt_cmd_names_server: "names_server (txt_cmd ns name)"
  by (simp add: names_server_def txt_cmd_def startswith_def)

lemma ns_cmd_no_server: "\<not> startswith ''@'' zone \<Longrightarrow> \<not> names_server (ns_cmd zone)"
  by (simp add: names_server_def ns_cmd_def startswith_def)

text \<open>
  C2, as amended. With no nameserver override and the fallback flag not \<^verbatim>\<open>1\<close>, the
  first command of the fetch is the NS lookup of the zone, \<^verbatim>\<open>dig +short NS <zone>\<close>,
  which names no server (for a zone that does not start with \<^verbatim>\<open>@\<close>) and so is answered
  by the system default resolver. If that lookup fails, its error leaves the fetch
  unchanged and nothing else is run. If it answers and every nameserver of the answer
  errors or returns an empty payload, the fetch fails with the error carrying the
  queried name, the zone and the last per-nameserver error observed; every command after
  the NS lookup names its nameserver, and the TXT query through the system resolver is
  not among the commands run.
\<close>

theorem authoritative_only_failure:
  assumes ov: "py_strip (getenv environ ''POA_DNS_NS_OVERRIDE'' '''') = []"
    and fl: "getenv environ ''POA_DNS_ALLOW_SYSTEM_RESOLVER'' ''0'' \<noteq> ''1''"
  shows "hd (fst (dig_txt_authoritative environ proc name zone)) = ns_cmd zone \<and>
         (\<not> startswith ''@'' zone \<longrightarrow> \<not> names_server (ns_cmd zone)) \<and>
         (\<forall>e. snd (get_authoritative_ns proc zone) = Inl e \<longrightarrow>
            dig_txt_authoritative environ proc name zone = ([ns_cmd zone], Inl e)) \<and>
         (\<forall>ns_list. snd (get_authoritative_ns proc zone) = Inr ns_list \<and>
            (\<forall>ns\<in>set ns_list. yields_nothing proc name ns) \<longrightarrow>
            dig_txt_authoritative environ proc name zone =
              (ns_cmd zone # map (\<lambda>ns. txt_cmd ns name) ns_list,
               Inl (no_txt_error name zone (last_observed (observed_errors proc name ns_list)))) \<and>
            list_all names_server (tl (fst (dig_txt_authoritative environ proc name zone))) \<and>
            system_txt_cmd name \<notin> set (fst (dig_txt_authoritative environ proc name zone)))"
proof -
  have g: "fst (get_authoritative_ns proc zone) = [ns_cmd zone]"
    by (simp add: get_authoritative_ns_def)
  from ov have n: "ns_list_of environ proc zone = get_authoritative_ns proc zone"
    by (simp add: ns_list_of_def)
  have c3: "\<forall>e. snd (get_authoritative_ns proc zone) = Inl e \<longrightarrow>
      dig_txt_authoritative environ proc name zone = ([ns_cmd zone], Inl e)"
  proof (intro allI impI)
    fix e assume "snd (get_authoritative_ns proc zone) = Inl e"
    with g have "get_authoritative_ns proc zone = ([ns_cmd zone], Inl e)"
      by (cases "get_authoritative_ns proc zone") simp
    then show "dig_txt_authoritative environ proc name zone = ([ns_cmd zone], Inl e)"
      by (simp add: dig_txt_authoritative_def n)
  qed
  have c4: "\<forall>ns_list. snd (get_authoritative_ns proc zone) = Inr ns_list \<and>
      (\<forall>ns\<in>set ns_list. yields_nothing proc name ns) \<longrightarrow>
      dig_txt_authoritative environ proc name zone =
        (ns_cmd zone # map (\<lambda>ns. txt_cmd ns name) ns_list,
         Inl (no_txt_error name zone (last_observed (observed_errors proc name ns_list)))) \<and>
      list_all names_server (tl (fst (dig_txt_authoritative environ proc name zone))) \<and>
      system_txt_cmd name \<notin> set (fst (dig_txt_authoritative environ proc name zone))"
  proof (intro allI impI)
    fix ns_list
    assume h: "snd (get_authoritative_ns proc zone) = Inr ns_list \<and>
      (\<forall>ns\<in>set ns_list. yields_nothing proc name ns)"
    with g have ga: "get_authoritative_ns proc zone = ([ns_cmd zone], Inr ns_list)"
      by (cases "get_authoritative_ns proc zone") simp
    from h have y: "\<forall>ns\<in>set ns_list. yields_nothing proc name ns" by simp
    have t: "try_nameservers proc name None ns_list =
        (map (\<lambda>ns. txt_cmd ns name) ns_list, None,
         last_observed (observed_errors proc name ns_list))"
      using try_nameservers_nothing [OF y, of None] by (simp split: option.splits)
    have d: "dig_txt_authoritative environ proc name zone =
        (ns_cmd zone # map (\<lambda>ns. txt_cmd ns name) ns_list,
         Inl (no_txt_error name zone (last_observed (observed_errors proc name ns_list))))"
      using fl by (simp add: dig_txt_authoritative_def n ga t)
    have a: "list_all names_server (map (\<lambda>ns. txt_cmd ns name) ns_list)"
      by (simp add: list_all_iff txt_cmd_names_server)
    have b: "system_txt_cmd name \<notin> set (ns_cmd zone # map (\<lambda>ns. txt_cmd ns name) ns_list)"
      by (auto simp: txt_cmd_def system_txt_cmd_def ns_cmd_def)
    from d a b show "dig_txt_authoritative environ proc name zone =
        (ns_cmd zone # map (\<lambda>ns. txt_cmd ns name) ns_list,
         Inl (no_txt_error name zone (last_observed (observed_errors proc name ns_list)))) \<and>
      list_all names_server (tl (fst (dig_txt_authoritative environ proc name zone))) \<and>
      system_txt_cmd name \<notin> set (fst (dig_txt_authoritative environ proc name zone))"
      by simp
  qed
  have c1: "hd (fst (dig_txt_authoritative environ proc name zone)) = ns_cmd zone"
  proof (cases "snd (get_authoritative_ns proc zone)")
    case (Inl e)
    with c3 show ?thesis by simp
  next
    case (Inr ns_list)
    with g have ga: "get_authoritative_ns proc zone = ([ns_cmd zone], Inr ns_list)"
      by (cases "get_authoritative_ns proc zone") simp
    show ?thesis
      by (simp add: dig_txt_authoritative_def n ga split: prod.splits option.splits sum.splits)
  qed
  have c2: "\<not> startswith ''@'' zone \<longrightarrow> \<not> names_server (ns_cmd zone)"
    using ns_cmd_no_server by blast
  from c1 c2 c3 c4 show ?thesis by (intro conjI)
qed

theorem authoritative_only_failure_witness:
  "dig_txt_authoritative no_environ silent_dns ''_poa.uptimeproof.io'' ''uptimeproof.io'' =
     ([ns_cmd ''uptimeproof.io'',
       txt_cmd ''ns1.example.net'' ''_poa.uptimeproof.io'',
       txt_cmd ''ns2.example.net'' ''_poa.uptimeproof.io''],
      Inl (RuntimeError
        (''No TXT returned for _poa.uptimeproof.io via authoritative NS (zone=uptimeproof.io). last_err=Command failed: dig @ns1.example.net +short TXT _poa.uptimeproof.io +time=2 +tries=1''
         @ [NEWLINE] @ ''no servers could be reached''))) \<and>
   system_txt_cmd ''_poa.uptimeproof.io'' \<notin>
     set (fst (dig_txt_authoritative no_environ silent_dns ''_poa.uptimeproof.io'' ''uptimeproof.io'')) \<and>
   dig_txt_authoritative no_environ failing_lookup_dns ''_poa.uptimeproof.io'' ''uptimeproof.io'' =
     ([ns_cmd ''uptimeproof.io''],
      Inl (RuntimeError
        (''Command failed: dig +short NS uptimeproof.io'' @ [NEWLINE] @
         ''connection timed out; no servers could be reached'')))"
proof -
  have h1: "py_strip (getenv no_environ ''POA_DNS_NS_OVERRIDE'' '''') = []"
    by (simp add: getenv_def no_environ_def py_strip_def py_rstrip_by_def)
  have h2: "getenv no_environ ''POA_DNS_ALLOW_SYSTEM_RESOLVER'' ''0'' \<noteq> ''1''"
    by (simp add: getenv_def no_environ_def)
  have h3: "snd (get_authoritative_ns silent_dns ''uptimeproof.io'') =
      Inr [''ns1.example.net'', ''ns2.example.net'']"
    by code_simp
  have h4a: "yields_nothing silent_dns ''_poa.uptimeproof.io'' ''ns1.example.net''" by code_simp
  have h4b: "yields_nothing silent_dns ''_poa.uptimeproof.io'' ''ns2.example.net''" by code_simp
  from h4a h4b have h4: "\<forall>ns\<in>set [''ns1.example.net'', ''ns2.example.net''].
      yields_nothing silent_dns ''_poa.uptimeproof.io'' ns" by simp
  have o: "no_txt_error ''_poa.uptimeproof.io'' ''uptimeproof.io''
      (last_observed (observed_errors silent_dns ''_poa.uptimeproof.io''
         [''ns1.example.net'', ''ns2.example.net''])) =
      RuntimeError
        (''No TXT returned for _poa.uptimeproof.io via authoritative NS (zone=uptimeproof.io). last_err=Command failed: dig @ns1.example.net +short TXT _poa.uptimeproof.io +time=2 +tries=1''
         @ [NEWLINE] @ ''no servers could be reached'')"
    by code_simp
  have f: "snd (get_authoritative_ns failing_lookup_dns ''uptimeproof.io'') =
      Inl (RuntimeError
        (''Command failed: dig +short NS uptimeproof.io'' @ [NEWLINE] @
         ''connection timed out; no servers could be reached''))"
    by code_simp
  note T = authoritative_only_failure [OF h1 h2, of silent_dns "''_poa.uptimeproof.io''"
      "''uptimeproof.io''"]
  from T h3 h4 have a: "dig_txt_authoritative no_environ silent_dns ''_poa.uptimeproof.io'' ''uptimeproof.io'' =
      (ns_cmd ''uptimeproof.io'' #
         map (\<lambda>ns. txt_cmd ns ''_poa.uptimeproof.io'') [''ns1.example.net'', ''ns2.example.net''],
       Inl (no_txt_error ''_poa.uptimeproof.io'' ''uptimeproof.io''
         (last_observed (observed_errors silent_dns ''_poa.uptimeproof.io''
            [''ns1.example.net'', ''ns2.example.net'']))))"
    by blast
  then have d: "dig_txt_authoritative no_environ silent_dns ''_poa.uptimeproof.io'' ''uptimeproof.io'' =
     ([ns_cmd ''uptimeproof.io'',
       txt_cmd ''ns1.example.net'' ''_poa.uptimeproof.io'',
       txt_cmd ''ns2.example.net'' ''_poa.uptimeproof.io''],
      Inl (RuntimeError
        (''No TXT returned for _poa.uptimeproof.io via authoritative NS (zone=uptimeproof.io). last_err=Command failed: dig @ns1.example.net +short TXT _poa.uptimeproof.io +time=2 +tries=1''
         @ [NEWLINE] @ ''no servers could be reached'')))"
    by (simp only: o list.map)
  from T h3 h4 have s: "system_txt_cmd ''_poa.uptimeproof.io'' \<notin>
     set (fst (dig_txt_authoritative no_environ silent_dns ''_poa.uptimeproof.io'' ''uptimeproof.io''))"
    by blast
  from authoritative_only_failure [OF h1 h2, of failing_lookup_dns "''_poa.uptimeproof.io''"
      "''uptimeproof.io''"] f
  have e: "dig_txt_authoritative no_environ failing_lookup_dns ''_poa.uptimeproof.io'' ''uptimeproof.io'' =
     ([ns_cmd ''uptimeproof.io''],
      Inl (RuntimeError
        (''Command failed: dig +short NS uptimeproof.io'' @ [NEWLINE] @
         ''connection timed out; no servers could be reached'')))"
    by blast
  from d s e show ?thesis by (intro conjI)
qed

text \<open>
  The claim as stated fails on its last part: with no override, the flag unset and both
  nameservers silent, the fetch begins with \<^verbatim>\<open>dig +short NS uptimeproof.io\<close>, a query
  that names no server and is therefore issued against the system default resolver.
\<close>

theorem ns_lookup_asks_system_resolver:
  "py_strip (getenv no_environ ''POA_DNS_NS_OVERRIDE'' '''') = [] \<and>
   getenv no_environ ''POA_DNS_ALLOW_SYSTEM_RESOLVER'' ''0'' \<noteq> ''1'' \<and>
   snd (get_authoritative_ns silent_dns ''uptimeproof.io'') =
     Inr [''ns1.example.net'', ''ns2.example.net''] \<and>
   list_all (yields_nothing silent_dns ''_poa.uptimeproof.io'')
     [''ns1.example.net'', ''ns2.example.net''] \<and>
   hd (fst (dig_txt_authoritative no_environ silent_dns ''_poa.uptimeproof.io'' ''uptimeproof.io'')) =
     [''dig'', ''+short'', ''NS'', ''uptimeproof.io''] \<and>
   \<not> names_server [''dig'', ''+short'', ''NS'', ''uptimeproof.io'']"
  by code_simp

lemma py_split_no_sep: "sep \<notin> set e \<Longrightarrow> py_split sep e = [e]"
  by (induction e) auto

lemma py_split_append_sep:
  "sep \<notin> set e \<Longrightarrow> py_split sep (e @ sep # rest) = e # py_split sep rest"
  by (induction e) auto

lemma py_split_join:
  "entries \<noteq> [] \<Longrightarrow> \<forall>e\<in>set entries. sep \<notin> set e \<Longrightarrow>
   py_split sep (py_join [sep] entries) = entries"
proof (induction "[sep]" entries rule: py_join.induct)
  case 1
  then show ?case by simp
next
  case (2 x)
  then show ?case by (simp add: py_split_no_sep)
next
  case (3 x y ys)
  then show ?case by (simp add: py_split_append_sep)
qed

lemma py_strip_id:
  assumes "s \<noteq> []" and "\<not> py_isspace (hd s)" and "\<not> py_isspace (last s)"
  shows "py_strip s = s"
proof -
  from assms(1,2) have a: "dropWhile py_isspace s = s" by (cases s) auto
  from assms(1,3) have "dropWhile py_isspace (rev s) = rev s"
    by (cases "rev s") (auto simp: last_rev [symmetric] simp del: last_rev)
  with a show ?thesis by (simp add: py_strip_def py_rstrip_by_def)
qed

lemma py_rstrip_chars_id:
  assumes "s \<noteq> []" and "last s \<notin> set chars"
  shows "py_rstrip_chars chars s = s"
proof -
  from assms have "dropWhile (\<lambda>c. c \<in> set chars) (rev s) = rev s"
    by (cases "rev s") (auto simp: last_rev [symmetric] simp del: last_rev)
  then show ?thesis by (simp add: py_rstrip_chars_def py_rstrip_by_def)
qed

lemma hd_py_join: "e \<noteq> [] \<Longrightarrow> hd (py_join sep (e # es)) = hd e"
  by (cases es) auto

lemma py_join_last_nonempty:
  "entries \<noteq> [] \<Longrightarrow> last entries \<noteq> [] \<Longrightarrow> py_join sep entries \<noteq> []"
  by (induction sep entries rule: py_join.induct) auto

lemma last_py_join:
  "entries \<noteq> [] \<Longrightarrow> last entries \<noteq> [] \<Longrightarrow> last (py_join sep entries) = last (last entries)"
proof (induction sep entries rule: py_join.induct)
  case (1 sep)
  then show ?case by simp
next
  case (2 sep x)
  then show ?case by simp
next
  case (3 sep x y ys)
  then have l: "last (y # ys) \<noteq> []" by simp
  then have "py_join sep (y # ys) \<noteq> []" by (simp add: py_join_last_nonempty)
  then have "last (x @ sep @ py_join sep (y # ys)) = last (py_join sep (y # ys))" by simp
  with 3 l show ?case by simp
qed

lemma py_join_nonempty: "e \<noteq> [] \<Longrightarrow> py_join sep (e # es) \<noteq> []"
  by (cases es) auto

lemma plain_entries_verbatim:
  assumes ne: "entries \<noteq> []" and pl: "list_all plain_hostname entries"
  shows "map (\<lambda>x. py_rstrip_chars ''.'' (py_strip x))
           (filter (\<lambda>x. py_strip x \<noteq> []) (py_split CHR '','' (py_strip (py_join '','' entries))))
         = entries"
proof -
  from ne obtain e es where c: "entries = e # es" by (cases entries) auto
  from pl c have e: "e \<noteq> []" "\<not> py_isspace (hd e)" by (simp_all add: plain_hostname_def)
  from pl ne have l: "last entries \<noteq> []" "\<not> py_isspace (last (last entries))"
    by (simp_all add: list_all_iff plain_hostname_def)
  have j: "py_strip (py_join '','' entries) = py_join '','' entries"
  proof (rule py_strip_id)
    show "py_join '','' entries \<noteq> []" unfolding c using e(1) by (rule py_join_nonempty)
    show "\<not> py_isspace (hd (py_join '','' entries))"
      unfolding c using e by (simp add: hd_py_join)
    show "\<not> py_isspace (last (py_join '','' entries))"
      using l ne by (simp add: last_py_join)
  qed
  from pl have "\<forall>e\<in>set entries. CHR '','' \<notin> set e"
    by (simp add: list_all_iff plain_hostname_def)
  with ne have s: "py_split CHR '','' (py_join '','' entries) = entries"
    by (rule py_split_join)
  have st: "\<And>x. x \<in> set entries \<Longrightarrow> py_strip x = x"
    using pl by (auto simp: list_all_iff plain_hostname_def intro: py_strip_id)
  have rs: "\<And>x. x \<in> set entries \<Longrightarrow> py_rstrip_chars ''.'' x = x"
    using pl by (auto simp: list_all_iff plain_hostname_def intro: py_rstrip_chars_id)
  have nn: "\<And>x. x \<in> set entries \<Longrightarrow> x \<noteq> []"
    using pl by (auto simp: list_all_iff plain_hostname_def)
  have f: "filter (\<lambda>x. py_strip x \<noteq> []) entries = entries"
    using st nn by (simp add: filter_id_conv)
  have m: "map (\<lambda>x. py_rstrip_chars ''.'' (py_strip x)) entries = entries"
    using st rs by (simp add: map_idI)
  show ?thesis by (simp only: j s f m)
qed

text \<open>
  C9, as amended. When the environment supplies a nameserver override that is not blank,
  the nameserver list is the override's comma-separated entries, in order, each trimmed
  of surrounding whitespace and of trailing dots, blank entries dropped; no NS lookup is
  run, by the resolution step or by the fetch that follows it. An override that joins
  plain hostnames with commas is returned as it is.
\<close>

theorem override_skips_ns_lookup:
  assumes "py_strip (getenv environ ''POA_DNS_NS_OVERRIDE'' '''') \<noteq> []"
  shows "ns_list_of environ proc zone =
           ([], Inr (map (\<lambda>x. py_rstrip_chars ''.'' (py_strip x))
                      (filter (\<lambda>x. py_strip x \<noteq> [])
                         (py_split CHR '','' (py_strip (getenv environ ''POA_DNS_NS_OVERRIDE'' '''')))))) \<and>
         list_all (\<lambda>cmd. \<not> is_ns_lookup cmd)
           (fst (dig_txt_authoritative environ proc name zone)) \<and>
         (\<forall>entries. entries \<noteq> [] \<and> list_all plain_hostname entries \<and>
            getenv environ ''POA_DNS_NS_OVERRIDE'' '''' = py_join '','' entries \<longrightarrow>
            ns_list_of environ proc zone = ([], Inr entries))"
proof -
  let ?l = "map (\<lambda>x. py_rstrip_chars ''.'' (py_strip x))
              (filter (\<lambda>x. py_strip x \<noteq> [])
                 (py_split CHR '','' (py_strip (getenv environ ''POA_DNS_NS_OVERRIDE'' ''''))))"
  from assms have n: "ns_list_of environ proc zone = ([], Inr ?l)"
    by (simp add: ns_list_of_def Let_def)
  obtain log1 found last_err where t: "try_nameservers proc name None ?l = (log1, found, last_err)"
    by (cases "try_nameservers proc name None ?l") auto
  have "set log1 \<subseteq> (\<lambda>ns. txt_cmd ns name) ` set ?l"
    using try_nameservers_commands [of proc name None ?l] t by simp
  then have l1: "list_all (\<lambda>cmd. \<not> is_ns_lookup cmd) log1"
    using txt_cmd_not_ns_lookup by (auto simp: list_all_iff)
  have "list_all (\<lambda>cmd. \<not> is_ns_lookup cmd) (fst (dig_txt_authoritative environ proc name zone))"
    using l1 system_txt_cmd_not_ns_lookup [of name]
    by (simp add: dig_txt_authoritative_def n t split: option.split sum.split)
  then have c2: "list_all (\<lambda>cmd. \<not> is_ns_lookup cmd)
      (fst (dig_txt_authoritative environ proc name zone))" .
  have c3: "\<forall>entries. entries \<noteq> [] \<and> list_all plain_hostname entries \<and>
      getenv environ ''POA_DNS_NS_OVERRIDE'' '''' = py_join '','' entries \<longrightarrow>
      ns_list_of environ proc zone = ([], Inr entries)"
  proof (intro allI impI)
    fix entries
    assume h: "entries \<noteq> [] \<and> list_all plain_hostname entries \<and>
      getenv environ ''POA_DNS_NS_OVERRIDE'' '''' = py_join '','' entries"
    then have "?l = entries" by (simp add: plain_entries_verbatim)
    with n show "ns_list_of environ proc zone = ([], Inr entries)" by simp
  qed
  from n c2 c3 show ?thesis by blast
qed

theorem override_skips_ns_lookup_witness:
  "ns_list_of override_environ silent_dns ''uptimeproof.io'' =
     ([], Inr [''ns1.example.net'', ''ns2.example.net'']) \<and>
   list_all (\<lambda>cmd. \<not> is_ns_lookup cmd)
     (fst (dig_txt_authoritative override_environ silent_dns ''_poa.uptimeproof.io'' ''uptimeproof.io''))"
proof -
  have h: "py_strip (getenv override_environ ''POA_DNS_NS_OVERRIDE'' '''') \<noteq> []" by code_simp
  have e: "map (\<lambda>x. py_rstrip_chars ''.'' (py_strip x))
             (filter (\<lambda>x. py_strip x \<noteq> [])
                (py_split CHR '','' (py_strip (getenv override_environ ''POA_DNS_NS_OVERRIDE'' '''')))) =
           [''ns1.example.net'', ''ns2.example.net'']"
    by code_simp
  from override_skips_ns_lookup [OF h, of silent_dns "''uptimeproof.io''" "''_poa.uptimeproof.io''"]
  show ?thesis unfolding e by simp
qed

text \<open>
  The claim as stated fails on an override whose entries carry a root dot or a space after
  the comma: the list returned is not the list supplied.
\<close>

theorem override_not_verbatim:
  "py_split CHR '','' (getenv override_environ ''POA_DNS_NS_OVERRIDE'' '''') =
     [''ns1.example.net.'', '' ns2.example.net''] \<and>
   snd (ns_list_of override_environ silent_dns ''uptimeproof.io'') =
     Inr [''ns1.example.net'', ''ns2.example.net''] \<and>
   snd (ns_list_of override_environ silent_dns ''uptimeproof.io'') \<noteq>
     Inr (py_split CHR '','' (getenv override_environ ''POA_DNS_NS_OVERRIDE'' ''''))"
  by code_simp

subsection \<open>Local matching\<close>

lemma hash_scan_none:
  "\<forall>f\<in>set files. \<not> hashes_to fs f sha \<Longrightarrow>
   hash_scan fs sha files = (map Sha256File files, (None, None))"
proof (induction files)
  case Nil
  then show ?case by simp
next
  case (Cons f rest)
  then have ih: "hash_scan fs sha rest = (map Sha256File rest, (None, None))" by simp
  from Cons.prems have "\<not> hashes_to fs f sha" by simp
  then show ?case
    by (cases "fs_sha256 fs f") (simp_all add: hashes_to_def ih)
qed

lemma hash_scan_finds:
  "f \<in> set files \<Longrightarrow> hashes_to fs f sha \<Longrightarrow>
   \<exists>g. snd (hash_scan fs sha files) = (Some g, Some ''matched_by_hash_scan'') \<and>
       g \<in> set files \<and> hashes_to fs g sha"
proof (induction files)
  case Nil
  then show ?case by simp
next
  case (Cons x rest)
  show ?case
  proof (cases "hashes_to fs x sha")
    case True
    then have "snd (hash_scan fs sha (x # rest)) = (Some x, Some ''matched_by_hash_scan'')"
      by (cases "fs_sha256 fs x") (simp_all add: hashes_to_def)
    with True show ?thesis by auto
  next
    case False
    with Cons.prems have "f \<in> set rest" by auto
    with Cons obtain g where g: "snd (hash_scan fs sha rest) = (Some g, Some ''matched_by_hash_scan'')"
      "g \<in> set rest" "hashes_to fs g sha" by blast
    from False have "snd (hash_scan fs sha (x # rest)) = snd (hash_scan fs sha rest)"
      by (cases "fs_sha256 fs x") (simp_all add: hashes_to_def split: prod.splits)
    with g show ?thesis by auto
  qed
qed

lemma hashed_files_map: "hashed_files (map Sha256File files) = files"
  by (induction files) simp_all

lemma hashed_files_append: "hashed_files (xs @ ys) = hashed_files xs @ hashed_files ys"
  by (induction xs rule: hashed_files.induct) simp_all

lemma hashed_files_hash_scan:
  "set (hashed_files (fst (hash_scan fs sha files))) \<subseteq> set files"
proof (induction files)
  case Nil
  then show ?case by simp
next
  case (Cons f rest)
  then show ?case
    by (cases "fs_sha256 fs f") (auto split: prod.splits)
qed

lemma hashed_files_sort_keys: "hashed_files (fst (sort_keys fs files)) = []"
proof (induction files)
  case Nil
  then show ?case by simp
next
  case (Cons f rest)
  then show ?case
    by (cases "fs_getmtime fs f") (auto split: prod.splits sum.splits)
qed

lemma hashed_files_newest: "hashed_files (fst (newest_files fs d n)) = []"
proof -
  obtain ops r where s: "sort_keys fs (fs_glob fs (path_join d ''heartbeats_*.json'')) = (ops, r)"
    by (cases "sort_keys fs (fs_glob fs (path_join d ''heartbeats_*.json''))") auto
  with hashed_files_sort_keys [of fs "fs_glob fs (path_join d ''heartbeats_*.json'')"]
  have "hashed_files ops = []" by simp
  with s show ?thesis
    by (cases r) (simp_all add: newest_files_def Let_def)
qed

lemma sort_keys_length:
  "sort_keys fs files = (ops, Inr ms) \<Longrightarrow> length ms = length files"
proof (induction files arbitrary: ops ms)
  case Nil
  then show ?case by simp
next
  case (Cons f rest)
  then show ?case
    by (cases "fs_getmtime fs f") (auto split: prod.splits sum.splits)
qed

lemma sort_reverse_length: "length (sort_reverse kfs) = length kfs"
  by (simp add: sort_reverse_def)

lemma newest_files_take:
  assumes "snd (newest_files fs d (length (fs_glob fs (candidates_pattern d)))) = Inr ranked"
  shows "snd (newest_files fs d n) = Inr (take n ranked) \<and>
         length ranked = length (fs_glob fs (candidates_pattern d))"
proof -
  let ?files = "fs_glob fs (path_join d ''heartbeats_*.json'')"
  obtain ops r where s: "sort_keys fs ?files = (ops, r)"
    by (cases "sort_keys fs ?files") auto
  show ?thesis
  proof (cases r)
    case (Inl e)
    with s assms show ?thesis
      by (simp add: newest_files_def Let_def candidates_pattern_def)
  next
    case (Inr ms)
    with s have l: "length ms = length ?files" by (simp add: sort_keys_length)
    then have "length (map snd (sort_reverse (zip ms ?files))) = length ?files"
      by (simp add: sort_reverse_length)
    with s Inr assms show ?thesis
      by (auto simp: newest_files_def Let_def candidates_pattern_def)
  qed
qed


lemma sort_keys_values:
  "sort_keys fs files = (ops, Inr ms) \<Longrightarrow> ms = map (mtime_of fs) files"
proof (induction files arbitrary: ops ms)
  case Nil
  then show ?case by simp
next
  case (Cons f rest)
  then show ?case
    by (cases "fs_getmtime fs f") (auto simp: mtime_of_def split: prod.splits sum.splits)
qed

lemma sort_reverse_set: "set (sort_reverse kfs) = set kfs"
  by (simp add: sort_reverse_def)

lemma sort_reverse_descending: "sorted (rev (map fst (sort_reverse kfs)))"
  by (simp add: sort_reverse_def rev_map [symmetric])

lemma keyed_fst:
  assumes "set xs \<subseteq> set (zip (map h files) files)"
  shows "map fst xs = map h (map snd xs)"
proof -
  have "\<And>x. x \<in> set xs \<Longrightarrow> fst x = h (snd x)"
  proof -
    fix x assume "x \<in> set xs"
    with assms have "x \<in> set (zip (map h files) files)" by blast
    then show "fst x = h (snd x)" by (auto simp: zip_map1 zip_same)
  qed
  then show ?thesis by simp
qed

lemma descending_take_drop:
  assumes "sorted (rev (map h xs))" and "x \<in> set (take n xs)" and "y \<in> set (drop n xs)"
  shows "h y \<le> h (x :: string)"
proof -
  have "rev (map h xs) = rev (map h (drop n xs)) @ rev (map h (take n xs))"
    by (metis append_take_drop_id map_append rev_append)
  with assms(1) have "\<forall>a\<in>set (rev (map h (drop n xs))). \<forall>b\<in>set (rev (map h (take n xs))). a \<le> b"
    by (simp add: sorted_append)
  with assms(2,3) show ?thesis by simp
qed

lemma newest_files_ranked:
  assumes "snd (newest_files fs d (length (fs_glob fs (candidates_pattern d)))) = Inr ranked"
  shows "sorted (rev (map (mtime_of fs) ranked)) \<and> set ranked = set (fs_glob fs (candidates_pattern d))"
proof -
  let ?files = "fs_glob fs (path_join d ''heartbeats_*.json'')"
  obtain ops r where s: "sort_keys fs ?files = (ops, r)"
    by (cases "sort_keys fs ?files") auto
  show ?thesis
  proof (cases r)
    case (Inl e)
    with s assms show ?thesis
      by (simp add: newest_files_def Let_def candidates_pattern_def)
  next
    case (Inr ms)
    with s have ms: "ms = map (mtime_of fs) ?files" by (simp add: sort_keys_values)
    let ?sorted = "sort_reverse (zip ms ?files)"
    have l: "length (map snd ?sorted) = length ?files"
      by (simp add: sort_reverse_length ms)
    from s Inr assms have "ranked = take (length ?files) (map snd ?sorted)"
      by (simp add: newest_files_def Let_def candidates_pattern_def)
    with l have rk: "ranked = map snd ?sorted" by simp
    have "set ?sorted \<subseteq> set (zip (map (mtime_of fs) ?files) ?files)"
      by (simp add: sort_reverse_set ms)
    then have "map fst ?sorted = map (mtime_of fs) (map snd ?sorted)" by (rule keyed_fst)
    with sort_reverse_descending [of "zip ms ?files"] rk
    have d: "sorted (rev (map (mtime_of fs) ranked))" by simp
    have lm: "length ms = length ?files" by (simp add: ms)
    have "set ranked = set (map snd (zip ms ?files))" by (simp add: rk sort_reverse_set)
    also have "\<dots> = set ?files" by (simp only: map_snd_zip [OF lm])
    finally show ?thesis using d by (simp add: candidates_pattern_def)
  qed
qed


lemma sort_keys_total:
  "\<forall>f\<in>set files. fs_getmtime fs f = Inr (mt f) \<Longrightarrow>
   sort_keys fs files = (map GetMtime files, Inr (map mt files))"
  by (induction files) simp_all

lemma insort_key_last:
  "\<forall>y\<in>set xs. f y < f x \<Longrightarrow> insort_key f x xs = xs @ [x]"
  by (induction xs) auto

lemma sort_key_rev_ascending:
  "sorted (map f xs) \<Longrightarrow> distinct (map f xs) \<Longrightarrow> sort_key f (rev xs) = xs"
proof (induction xs rule: rev_induct)
  case Nil
  then show ?case by simp
next
  case (snoc x xs)
  then have s: "sorted (map f xs)" and d: "distinct (map f xs)"
    by (simp_all add: sorted_append)
  from snoc.prems have "\<forall>y\<in>set xs. f y \<le> f x" by (simp add: sorted_append)
  moreover from snoc.prems(2) have "f x \<notin> f ` set xs" by simp
  then have "\<forall>y\<in>set xs. f y \<noteq> f x" by (metis imageI)
  ultimately have "\<forall>y\<in>set xs. f y < f x" by (simp add: less_le)
  then have "insort_key f x xs = xs @ [x]" by (rule insort_key_last)
  with snoc.IH [OF s d] show ?case by simp
qed

lemma sort_reverse_ascending:
  "sorted (map fst kfs) \<Longrightarrow> distinct (map fst kfs) \<Longrightarrow> sort_reverse kfs = rev kfs"
  by (simp add: sort_reverse_def sort_key_rev_ascending)

lemma newest_files_ascending:
  assumes m: "\<forall>f\<in>set (fs_glob fs (candidates_pattern d)). fs_getmtime fs f = Inr (mt f)"
    and s: "sorted (map mt (fs_glob fs (candidates_pattern d)))"
    and di: "distinct (map mt (fs_glob fs (candidates_pattern d)))"
  shows "snd (newest_files fs d n) = Inr (take n (rev (fs_glob fs (candidates_pattern d))))"
proof -
  let ?files = "fs_glob fs (candidates_pattern d)"
  have k: "sort_keys fs ?files = (map GetMtime ?files, Inr (map mt ?files))"
    using m by (rule sort_keys_total)
  have f: "map fst (zip (map mt ?files) ?files) = map mt ?files" by simp
  have "sort_reverse (zip (map mt ?files) ?files) = rev (zip (map mt ?files) ?files)"
    by (rule sort_reverse_ascending) (simp_all only: f s di)
  then have "map snd (sort_reverse (zip (map mt ?files) ?files)) = rev ?files"
    by (simp add: rev_map [symmetric])
  with k show ?thesis
    by (simp add: newest_files_def Let_def candidates_pattern_def [symmetric])
qed

lemma digit_char_value:
  "k < 10 \<Longrightarrow> (of_char (''0123456789'' ! k) :: nat) - 48 = k \<and> ''0123456789'' ! k \<in> set ''0123456789''"
proof -
  assume "k < 10"
  then have "k = 0 \<or> k = 1 \<or> k = 2 \<or> k = 3 \<or> k = 4 \<or> k = 5 \<or> k = 6 \<or> k = 7 \<or>
      k = 8 \<or> k = 9" by arith
  then show ?thesis by (elim disjE) simp_all
qed

lemma str_nat_digits: "\<forall>c\<in>set (str_nat n). c \<in> set ''0123456789''"
proof (induction n rule: str_nat.induct)
  case (1 n)
  show ?case
  proof (cases "n < 10")
    case True
    then show ?thesis
      using digit_char_value [of n] by (simp add: str_nat.simps [of n])
  next
    case False
    have "n mod 10 < 10" by simp
    with 1 False show ?thesis
      using digit_char_value [of "n mod 10"] by (simp add: str_nat.simps [of n])
  qed
qed

lemma str_nat_value:
  "foldl (\<lambda>n c. 10 * n + (of_char c - 48)) 0 (str_nat n) = n"
proof (induction n rule: str_nat.induct)
  case (1 n)
  show ?case
  proof (cases "n < 10")
    case True
    then show ?thesis
      using digit_char_value [of n] by (simp add: str_nat.simps [of n])
  next
    case False
    have "n mod 10 < 10" by simp
    with 1 False show ?thesis
      using digit_char_value [of "n mod 10"] by (simp add: str_nat.simps [of n])
  qed
qed

lemma heartbeat_number_path: "heartbeat_number (heartbeat_path i) = i"
proof -
  have "takeWhile (\<lambda>c. c \<in> set ''0123456789'') (str_nat i @ ''.json'') = str_nat i"
    using str_nat_digits [of i] by (simp add: takeWhile_append2)
  then show ?thesis
    by (simp add: heartbeat_number_def heartbeat_path_def str_nat_value)
qed

lemma heartbeat_path_inj: "heartbeat_path i = heartbeat_path j \<Longrightarrow> i = j"
  using heartbeat_number_path by metis


text \<open>
  C6. For every proof whose filename hint is present (and not empty) and names a path
  that exists (the hint joined to the export directory), the match is that path, tagged
  \<^verbatim>\<open>matched_by_filename\<close>. The only read of the file system is the existence test:
  no file is hashed and the candidates are not listed, whatever the other files of the
  directory hash to.
\<close>

theorem filename_tier_wins:
  assumes "filename p = Some fname" and "fname \<noteq> []"
    and "fs_exists fs (path_join export_dir fname)"
  shows "find_local_match fs export_dir p =
           ([Exists (path_join export_dir fname)],
            Inr (Some (path_join export_dir fname), Some ''matched_by_filename'')) \<and>
         hashed_files (fst (find_local_match fs export_dir p)) = []"
  using assms by (simp add: find_local_match_def Let_def)

theorem filename_tier_wins_witness:
  "hashes_to small_fs ''/proof/exports/heartbeats_20240102.json'' (sha256 hinted_proof) \<and>
   \<not> hashes_to small_fs ''/proof/exports/heartbeats_20240101.json'' (sha256 hinted_proof) \<and>
   find_local_match small_fs ''/proof/exports'' hinted_proof =
     ([Exists ''/proof/exports/heartbeats_20240101.json''],
      Inr (Some ''/proof/exports/heartbeats_20240101.json'', Some ''matched_by_filename''))"
proof -
  have h1: "filename hinted_proof = Some ''heartbeats_20240101.json''"
    by (simp add: hinted_proof_def)
  have h2: "''heartbeats_20240101.json'' \<noteq> []" by simp
  have j: "path_join ''/proof/exports'' ''heartbeats_20240101.json'' =
      ''/proof/exports/heartbeats_20240101.json''"
    by (simp add: path_join_def startswith_def)
  have h3: "fs_exists small_fs (path_join ''/proof/exports'' ''heartbeats_20240101.json'')"
    unfolding j by (simp add: small_fs_def)
  have a: "hashes_to small_fs ''/proof/exports/heartbeats_20240102.json'' (sha256 hinted_proof)"
    by code_simp
  have b: "\<not> hashes_to small_fs ''/proof/exports/heartbeats_20240101.json'' (sha256 hinted_proof)"
    by code_simp
  from filename_tier_wins [OF h1 h2 h3] a b show ?thesis unfolding j by simp
qed

lemma hash_scan_tier_filename:
  "hash_scan_tier fs export_dir (p\<lparr>filename := x\<rparr>) = hash_scan_tier fs export_dir p"
  by (auto simp: hash_scan_tier_def split: prod.splits sum.splits)

text \<open>
  C10. For every proof whose filename hint is present and names a path that does not
  exist, the match is the one computed for the same proof without a hint, after the one
  existence test: the dangling hint raises nothing and ends nothing. Whenever the listing
  of the newest files succeeds, the match returns, and if one of the listed files hashes
  to the proof's hash, it returns a listed file with that hash, tagged
  \<^verbatim>\<open>matched_by_hash_scan\<close>.
\<close>

theorem dangling_hint_falls_through:
  assumes "filename p = Some fname" and "fname \<noteq> []"
    and "\<not> fs_exists fs (path_join export_dir fname)"
  shows "fst (find_local_match fs export_dir p) =
           Exists (path_join export_dir fname) #
             fst (find_local_match fs export_dir (p\<lparr>filename := None\<rparr>)) \<and>
         snd (find_local_match fs export_dir p) =
           snd (find_local_match fs export_dir (p\<lparr>filename := None\<rparr>)) \<and>
         (\<forall>files. snd (newest_files fs export_dir LOOKBACK_FILES) = Inr files \<longrightarrow>
            (\<exists>r. snd (find_local_match fs export_dir p) = Inr r) \<and>
            (\<forall>f. f \<in> set files \<and> hashes_to fs f (sha256 p) \<longrightarrow>
               (\<exists>g. snd (find_local_match fs export_dir p) =
                      Inr (Some g, Some ''matched_by_hash_scan'') \<and>
                    g \<in> set files \<and> hashes_to fs g (sha256 p))))"
proof -
  have n: "find_local_match fs export_dir (p\<lparr>filename := None\<rparr>) = hash_scan_tier fs export_dir p"
    by (simp add: find_local_match_def hash_scan_tier_filename)
  from assms have m: "find_local_match fs export_dir p =
      (Exists (path_join export_dir fname) # fst (hash_scan_tier fs export_dir p),
       snd (hash_scan_tier fs export_dir p))"
    by (simp add: find_local_match_def Let_def split: prod.splits)
  have c3: "\<forall>files. snd (newest_files fs export_dir LOOKBACK_FILES) = Inr files \<longrightarrow>
      (\<exists>r. snd (hash_scan_tier fs export_dir p) = Inr r) \<and>
      (\<forall>f. f \<in> set files \<and> hashes_to fs f (sha256 p) \<longrightarrow>
         (\<exists>g. snd (hash_scan_tier fs export_dir p) = Inr (Some g, Some ''matched_by_hash_scan'') \<and>
              g \<in> set files \<and> hashes_to fs g (sha256 p)))"
  proof (intro allI impI)
    fix files
    assume nf: "snd (newest_files fs export_dir LOOKBACK_FILES) = Inr files"
    then obtain ops where o: "newest_files fs export_dir LOOKBACK_FILES = (ops, Inr files)"
      by (cases "newest_files fs export_dir LOOKBACK_FILES") auto
    have t: "snd (hash_scan_tier fs export_dir p) = Inr (snd (hash_scan fs (sha256 p) files))"
      by (simp add: hash_scan_tier_def o split: prod.splits)
    show "(\<exists>r. snd (hash_scan_tier fs export_dir p) = Inr r) \<and>
      (\<forall>f. f \<in> set files \<and> hashes_to fs f (sha256 p) \<longrightarrow>
         (\<exists>g. snd (hash_scan_tier fs export_dir p) = Inr (Some g, Some ''matched_by_hash_scan'') \<and>
              g \<in> set files \<and> hashes_to fs g (sha256 p)))"
      using t hash_scan_finds [of _ files fs "sha256 p"] by auto
  qed
  from n m c3 show ?thesis by simp
qed

theorem dangling_hint_falls_through_witness:
  "\<not> fs_exists small_fs (path_join ''/proof/exports'' ''heartbeats_20231231.json'') \<and>
   find_local_match small_fs ''/proof/exports'' dangling_proof =
     ([Exists ''/proof/exports/heartbeats_20231231.json'',
       Glob ''/proof/exports/heartbeats_*.json'',
       GetMtime ''/proof/exports/heartbeats_20240101.json'',
       GetMtime ''/proof/exports/heartbeats_20240102.json'',
       Sha256File ''/proof/exports/heartbeats_20240102.json''],
      Inr (Some ''/proof/exports/heartbeats_20240102.json'', Some ''matched_by_hash_scan''))"
proof -
  have h1: "filename dangling_proof = Some ''heartbeats_20231231.json''"
    by (simp add: dangling_proof_def)
  have h2: "''heartbeats_20231231.json'' \<noteq> []" by simp
  have h3: "\<not> fs_exists small_fs (path_join ''/proof/exports'' ''heartbeats_20231231.json'')"
    by code_simp
  have j: "path_join ''/proof/exports'' ''heartbeats_20231231.json'' =
      ''/proof/exports/heartbeats_20231231.json''"
    by (simp add: path_join_def startswith_def)
  have e: "find_local_match small_fs ''/proof/exports'' (dangling_proof\<lparr>filename := None\<rparr>) =
     ([Glob ''/proof/exports/heartbeats_*.json'',
       GetMtime ''/proof/exports/heartbeats_20240101.json'',
       GetMtime ''/proof/exports/heartbeats_20240102.json'',
       Sha256File ''/proof/exports/heartbeats_20240102.json''],
      Inr (Some ''/proof/exports/heartbeats_20240102.json'', Some ''matched_by_hash_scan''))"
    by code_simp
  note T = dangling_hint_falls_through [OF h1 h2 h3]
  from T have a: "fst (find_local_match small_fs ''/proof/exports'' dangling_proof) =
      Exists (path_join ''/proof/exports'' ''heartbeats_20231231.json'') #
        fst (find_local_match small_fs ''/proof/exports'' (dangling_proof\<lparr>filename := None\<rparr>))"
    by (rule conjunct1)
  from T have b: "snd (find_local_match small_fs ''/proof/exports'' dangling_proof) =
      snd (find_local_match small_fs ''/proof/exports'' (dangling_proof\<lparr>filename := None\<rparr>))"
    by (rule conjunct1 [OF conjunct2])
  have "find_local_match small_fs ''/proof/exports'' dangling_proof =
      (fst (find_local_match small_fs ''/proof/exports'' dangling_proof),
       snd (find_local_match small_fs ''/proof/exports'' dangling_proof))" by simp
  then have "find_local_match small_fs ''/proof/exports'' dangling_proof =
     ([Exists ''/proof/exports/heartbeats_20231231.json'',
       Glob ''/proof/exports/heartbeats_*.json'',
       GetMtime ''/proof/exports/heartbeats_20240101.json'',
       GetMtime ''/proof/exports/heartbeats_20240102.json'',
       Sha256File ''/proof/exports/heartbeats_20240102.json''],
      Inr (Some ''/proof/exports/heartbeats_20240102.json'', Some ''matched_by_hash_scan''))"
    unfolding a b e j by simp
  with h3 show ?thesis by (rule conjI)
qed


lemma find_local_match_no_hint:
  assumes "\<not> hint_selects fs export_dir p"
  shows "snd (find_local_match fs export_dir p) = snd (hash_scan_tier fs export_dir p) \<and>
         hashed_files (fst (find_local_match fs export_dir p)) =
           hashed_files (fst (hash_scan_tier fs export_dir p))"
proof (cases "filename p")
  case None
  then show ?thesis by (simp add: find_local_match_def)
next
  case (Some fname)
  show ?thesis
  proof (cases "fname = []")
    case True
    with Some show ?thesis by (simp add: find_local_match_def)
  next
    case False
    with Some assms have "\<not> fs_exists fs (path_join export_dir fname)"
      by (simp add: hint_selects_def)
    with Some False show ?thesis
      by (simp add: find_local_match_def Let_def split: prod.splits)
  qed
qed

text \<open>
  C7. Let \<open>ranked\<close> be all the candidates of the export directory (the files matching
  \<^verbatim>\<open>heartbeats_*.json\<close>) from the most recently modified to the least. When the
  filename tier selects nothing, there are more than 300 candidates, none of the first
  300 of \<open>ranked\<close> hashes to the proof's hash and a file \<open>g\<close> after them does, the
  result is no match; the files hashed are exactly the first 300 of \<open>ranked\<close>, and
  \<open>g\<close> is not newer than any of them.
\<close>

theorem scan_bounded_by_lookback:
  assumes r: "snd (newest_files fs export_dir
                (length (fs_glob fs (candidates_pattern export_dir)))) = Inr ranked"
    and nh: "\<not> hint_selects fs export_dir p"
    and many: "300 < length (fs_glob fs (candidates_pattern export_dir))"
    and window: "\<forall>f\<in>set (take 300 ranked). \<not> hashes_to fs f (sha256 p)"
    and older: "g \<in> set (drop 300 ranked)" "hashes_to fs g (sha256 p)"
  shows "LOOKBACK_FILES = 300 \<and>
         snd (find_local_match fs export_dir p) = Inr (None, None) \<and>
         hashed_files (fst (find_local_match fs export_dir p)) = take 300 ranked \<and>
         length (take 300 ranked) = 300 \<and>
         (\<forall>f\<in>set (take 300 ranked). mtime_of fs g \<le> mtime_of fs f)"
proof -
  from newest_files_take [OF r, of 300]
  have n: "snd (newest_files fs export_dir 300) = Inr (take 300 ranked)"
    and l: "length ranked = length (fs_glob fs (candidates_pattern export_dir))" by simp_all
  then obtain ops where o: "newest_files fs export_dir 300 = (ops, Inr (take 300 ranked))"
    by (cases "newest_files fs export_dir 300") auto
  from hashed_files_newest [of fs export_dir 300] o have h: "hashed_files ops = []" by simp
  from window have s: "hash_scan fs (sha256 p) (take 300 ranked) =
      (map Sha256File (take 300 ranked), (None, None))"
    by (rule hash_scan_none)
  have t: "hash_scan_tier fs export_dir p =
      (ops @ map Sha256File (take 300 ranked), Inr (None, None))"
    by (simp add: hash_scan_tier_def LOOKBACK_FILES_def o s)
  from find_local_match_no_hint [OF nh] t h
  have a: "snd (find_local_match fs export_dir p) = Inr (None, None)"
    and b: "hashed_files (fst (find_local_match fs export_dir p)) = take 300 ranked"
    by (simp_all add: hashed_files_append hashed_files_map)
  from newest_files_ranked [OF r] have "sorted (rev (map (mtime_of fs) ranked))" by simp
  then have c: "\<forall>f\<in>set (take 300 ranked). mtime_of fs g \<le> mtime_of fs f"
    using older(1) descending_take_drop [of "mtime_of fs" ranked _ 300 g] by blast
  from many l have d: "length (take 300 ranked) = 300" by simp
  from a b c d show ?thesis by (simp add: LOOKBACK_FILES_def)
qed

lemma crowded_glob:
  "fs_glob crowded_fs (candidates_pattern ''/proof/exports'') = map heartbeat_path [0..<301]"
  by (simp add: candidates_pattern_def path_join_def startswith_def crowded_fs_def)

lemma crowded_mtimes:
  "map (\<lambda>path. 1704067200 + 60 * real (heartbeat_number path)) (map heartbeat_path xs) =
   map (\<lambda>i. 1704067200 + 60 * real i) xs"
  by (simp add: heartbeat_number_path)

lemma crowded_ranked:
  "snd (newest_files crowded_fs ''/proof/exports'' n) =
     Inr (take n (map heartbeat_path (rev [0..<301])))"
proof -
  let ?mt = "\<lambda>path. 1704067200 + 60 * real (heartbeat_number path)"
  have m: "\<forall>f\<in>set (fs_glob crowded_fs (candidates_pattern ''/proof/exports'')).
      fs_getmtime crowded_fs f = Inr (?mt f)"
    by (simp add: crowded_fs_def)
  have "sorted (map (\<lambda>i. 1704067200 + 60 * real i) [0..<301])"
    by (simp add: sorted_map sorted_wrt_mono_rel [OF _ sorted_wrt_upt])
  then have s: "sorted (map ?mt (fs_glob crowded_fs (candidates_pattern ''/proof/exports'')))"
    by (simp only: crowded_glob crowded_mtimes)
  have "distinct (map (\<lambda>i. 1704067200 + 60 * real i) [0..<301])"
    by (simp add: distinct_map inj_on_def)
  then have d: "distinct (map ?mt (fs_glob crowded_fs (candidates_pattern ''/proof/exports'')))"
    by (simp only: crowded_glob crowded_mtimes)
  from newest_files_ascending [OF m s d, of n] show ?thesis
    by (simp only: crowded_glob rev_map)
qed

lemma window_301:
  "take 300 (map heartbeat_path (rev [0..<301])) = map heartbeat_path (rev [1..<301]) \<and>
   drop 300 (map heartbeat_path (rev [0..<301])) = [heartbeat_path 0]"
proof -
  have "[0..<301] = 0 # [1..<301]" by (simp add: upt_conv_Cons)
  then have "map heartbeat_path (rev [0..<301]) =
      map heartbeat_path (rev [1..<301]) @ [heartbeat_path 0]" by simp
  moreover have "length (map heartbeat_path (rev [1..<301])) = 300" by simp
  ultimately show ?thesis by simp
qed

theorem scan_bounded_by_lookback_witness:
  "length (fs_glob crowded_fs (candidates_pattern ''/proof/exports'')) = 301 \<and>
   hashes_to crowded_fs (heartbeat_path 0) (sha256 oldest_proof) \<and>
   snd (find_local_match crowded_fs ''/proof/exports'' oldest_proof) = Inr (None, None) \<and>
   hashed_files (fst (find_local_match crowded_fs ''/proof/exports'' oldest_proof)) =
     map heartbeat_path (rev [1..<301])"
proof -
  let ?ranked = "map heartbeat_path (rev [0..<301])"
  have len: "length (fs_glob crowded_fs (candidates_pattern ''/proof/exports'')) = 301"
    by (simp add: crowded_glob)
  have r: "snd (newest_files crowded_fs ''/proof/exports''
      (length (fs_glob crowded_fs (candidates_pattern ''/proof/exports'')))) = Inr ?ranked"
    using crowded_ranked [of 301] by (simp add: len)
  have nh: "\<not> hint_selects crowded_fs ''/proof/exports'' oldest_proof"
    by (simp add: hint_selects_def oldest_proof_def)
  have many: "300 < length (fs_glob crowded_fs (candidates_pattern ''/proof/exports''))"
    by (simp add: len)
  have lo: "py_lower ''ffffffffffffffffffffffffffffffffffffffffffffffffffffffffffffffff'' \<noteq>
      ''0000000000000000000000000000000000000000000000000000000000000000''"
    by code_simp
  have "\<forall>i\<in>set (rev [1..<301]). \<not> hashes_to crowded_fs (heartbeat_path i) (sha256 oldest_proof)"
  proof
    fix i assume "i \<in> set (rev [1..<301])"
    then have "i \<noteq> 0" by simp
    then have "heartbeat_path i \<noteq> heartbeat_path 0" using heartbeat_path_inj by blast
    then show "\<not> hashes_to crowded_fs (heartbeat_path i) (sha256 oldest_proof)"
      using lo by (simp add: hashes_to_def crowded_fs_def oldest_proof_def)
  qed
  then have window: "\<forall>f\<in>set (take 300 ?ranked). \<not> hashes_to crowded_fs f (sha256 oldest_proof)"
    unfolding window_301 [THEN conjunct1] by simp
  have o1: "heartbeat_path 0 \<in> set (drop 300 ?ranked)"
    unfolding window_301 [THEN conjunct2] by simp
  have o2: "hashes_to crowded_fs (heartbeat_path 0) (sha256 oldest_proof)"
    by code_simp
  note T = scan_bounded_by_lookback [OF r nh many window o1 o2]
  from T have a: "snd (find_local_match crowded_fs ''/proof/exports'' oldest_proof) = Inr (None, None)"
    by blast
  from T have "hashed_files (fst (find_local_match crowded_fs ''/proof/exports'' oldest_proof)) =
      take 300 ?ranked" by blast
  then have b: "hashed_files (fst (find_local_match crowded_fs ''/proof/exports'' oldest_proof)) =
      map heartbeat_path (rev [1..<301])"
    unfolding window_301 [THEN conjunct1] .
  from len o2 a b show ?thesis by blast
qed

subsection \<open>Timestamps\<close>







lemma wall_seconds_new_year_2024:
  "wall_seconds \<lparr>year = 2024, month = 1, day = 1, hour = 0, minute = 0, second = 0,
                 microsecond = 0, utcoffset = off\<rparr> = 1704067200"
  by (simp add: wall_seconds_def ymd2ord_def days_before_year_def days_before_month_def)




subsection \<open>Orchestrator\<close>

lemma verdict_values:
  "verdict_from_hash_and_skew h s = ''OK'' \<or> verdict_from_hash_and_skew h s = ''WARN'' \<or>
   verdict_from_hash_and_skew h s = ''FAIL''"
  by (simp add: verdict_from_hash_and_skew_def)

lemma main_report_cases:
  assumes "main_report fs i = Inr (out, code)"
  shows "out \<noteq> [] \<and>
         ((hd out = ''VERDICT: OK'' \<and> code = 0) \<or> (hd out = ''VERDICT: WARN'' \<and> code = 1) \<or>
          (hd out = ''VERDICT: FAIL'' \<and> code = 2))"
proof (cases "or_else (ri_match_path i) [] = []")
  case True
  with assms show ?thesis by (auto simp: main_report_def)
next
  case False
  let ?mp = "or_else (ri_match_path i) []"
  from False assms obtain h m where h: "fs_sha256 fs ?mp = Inr h" and m: "fs_getmtime fs ?mp = Inr m"
    by (auto simp: main_report_def Let_def split: sum.splits)
  let ?v = "verdict_from_hash_and_skew (py_lower h = sha256 (ri_proof i)) (py_int m - ri_dns_ts_unix i)"
  from False assms h m have o: "hd out = ''VERDICT: '' @ ?v" and ne: "out \<noteq> []"
    and c: "code = (if ?v = ''OK'' then 0 else if ?v = ''WARN'' then 1 else 2)"
    by (auto simp: main_report_def Let_def)
  from verdict_values [of "py_lower h = sha256 (ri_proof i)" "py_int m - ri_dns_ts_unix i"]
  show ?thesis
  proof (elim disjE)
    assume "?v = ''OK''"
    with o ne c show ?thesis by simp
  next
    assume "?v = ''WARN''"
    with o ne c show ?thesis by simp
  next
    assume "?v = ''FAIL''"
    with o ne c show ?thesis by simp
  qed
qed

lemma main_report_no_match:
  "or_else (ri_match_path i) [] = [] \<Longrightarrow>
   \<exists>out. main_report fs i = Inr (out, 2) \<and> hd out = ''VERDICT: FAIL''"
  by (simp add: main_report_def)

lemma main_inputs_world_with:
  assumes d: "snd (dig_txt_authoritative no_environ proc ''_poa.uptimeproof.io'' ''uptimeproof.io'') =
      Inr (dns_txt, used_ns)"
    and p: "parse_dns_txt dns_txt = Inr p"
    and t: "iso_to_unix (example_lib utc_host) (ts_iso p) = Inr u"
    and f: "snd (find_local_match evidence_fs ''/proof/exports'' p) = Inr (mp, how)"
  shows "main_inputs (world_with proc) =
      Inr \<lparr>ri_used_ns = used_ns, ri_dns_txt = dns_txt, ri_export_dir = ''/proof/exports'',
           ri_proof = p, ri_dns_ts_unix = u, ri_match_path = mp, ri_how = how\<rparr>"
proof -
  have e: "py_rstrip_chars ''/'' ''/proof/exports'' = ''/proof/exports''" by code_simp
  show ?thesis
    unfolding main_inputs_def world_with_def
    by (simp add: load_env_file_def or_else_def no_environ_def DNS_NAME_DEFAULT_def
        DNS_ZONE_DEFAULT_def DEFAULT_EXPORT_DIR_def Let_def e d p t f)
qed

lemma wall_seconds_two_hours_later:
  "wall_seconds \<lparr>year = 2024, month = 1, day = 1, hour = 2, minute = 0, second = 0,
                 microsecond = 0, utcoffset = off\<rparr> = 1704074400"
  by (simp add: wall_seconds_def ymd2ord_def days_before_year_def days_before_month_def)

lemma published_instant:
  "iso_to_unix (example_lib utc_host) ''2024-01-01T00:00:00Z'' = Inr 1704067200"
proof -
  have r: "py_replace CHR ''Z'' ''+00:00'' ''2024-01-01T00:00:00Z'' = ''2024-01-01T00:00:00+00:00''"
    by code_simp
  have p: "table_fromisoformat ''2024-01-01T00:00:00+00:00'' =
      Inr \<lparr>year = 2024, month = 1, day = 1, hour = 0, minute = 0, second = 0,
           microsecond = 0, utcoffset = Some 0\<rparr>"
    by (simp add: table_fromisoformat_def)
  have t: "zone_timestamp utc_host
      \<lparr>year = 2024, month = 1, day = 1, hour = 0, minute = 0, second = 0,
       microsecond = 0, utcoffset = Some 0\<rparr> = Inr 1704067200"
    unfolding zone_timestamp_def wall_seconds_new_year_2024 by simp
  have i: "py_int 1704067200 = 1704067200" by (simp add: py_int_def)
  show ?thesis
    unfolding iso_to_unix_def r example_lib_def pylib.simps p sum.case t i by (rule refl)
qed

lemma later_instant:
  "iso_to_unix (example_lib utc_host) ''2024-01-01T02:00:00Z'' = Inr 1704074400"
proof -
  have r: "py_replace CHR ''Z'' ''+00:00'' ''2024-01-01T02:00:00Z'' = ''2024-01-01T02:00:00+00:00''"
    by code_simp
  have p: "table_fromisoformat ''2024-01-01T02:00:00+00:00'' =
      Inr \<lparr>year = 2024, month = 1, day = 1, hour = 2, minute = 0, second = 0,
           microsecond = 0, utcoffset = Some 0\<rparr>"
    by (simp add: table_fromisoformat_def)
  have t: "zone_timestamp utc_host
      \<lparr>year = 2024, month = 1, day = 1, hour = 2, minute = 0, second = 0,
       microsecond = 0, utcoffset = Some 0\<rparr> = Inr 1704074400"
    unfolding zone_timestamp_def wall_seconds_two_hours_later by simp
  have i: "py_int 1704074400 = 1704074400" by (simp add: py_int_def)
  show ?thesis
    unfolding iso_to_unix_def r example_lib_def pylib.simps p sum.case t i by (rule refl)
qed

lemma healthy_inputs:
  "main_inputs healthy_world =
     Inr \<lparr>ri_used_ns = ''ns1.example.net'',
          ri_dns_txt = ''TS=2024-01-01T00:00:00Z;SHA256=1111111111111111111111111111111111111111111111111111111111111111;FILE=heartbeats_20240101.json'',
          ri_export_dir = ''/proof/exports'',
          ri_proof = \<lparr>ts_iso = ''2024-01-01T00:00:00Z'', sha256 = ''1111111111111111111111111111111111111111111111111111111111111111'', filename = Some ''heartbeats_20240101.json''\<rparr>,
          ri_dns_ts_unix = 1704067200, ri_match_path = Some ''/proof/exports/heartbeats_20240101.json'', ri_how = Some ''matched_by_filename''\<rparr>"
proof -
  have d: "snd (dig_txt_authoritative no_environ (answering_dns ''TS=2024-01-01T00:00:00Z;SHA256=1111111111111111111111111111111111111111111111111111111111111111;FILE=heartbeats_20240101.json'')
      ''_poa.uptimeproof.io'' ''uptimeproof.io'') =
    Inr (''TS=2024-01-01T00:00:00Z;SHA256=1111111111111111111111111111111111111111111111111111111111111111;FILE=heartbeats_20240101.json'', ''ns1.example.net'')"
    by code_simp
  have p: "parse_dns_txt ''TS=2024-01-01T00:00:00Z;SHA256=1111111111111111111111111111111111111111111111111111111111111111;FILE=heartbeats_20240101.json'' =
    Inr \<lparr>ts_iso = ''2024-01-01T00:00:00Z'', sha256 = ''1111111111111111111111111111111111111111111111111111111111111111'', filename = Some ''heartbeats_20240101.json''\<rparr>"
    by code_simp
  have t: "iso_to_unix (example_lib utc_host) (ts_iso \<lparr>ts_iso = ''2024-01-01T00:00:00Z'', sha256 = ''1111111111111111111111111111111111111111111111111111111111111111'', filename = Some ''heartbeats_20240101.json''\<rparr>) = Inr 1704067200"
    by (simp only: DnsProof.simps published_instant)
  have f: "snd (find_local_match evidence_fs ''/proof/exports'' \<lparr>ts_iso = ''2024-01-01T00:00:00Z'', sha256 = ''1111111111111111111111111111111111111111111111111111111111111111'', filename = Some ''heartbeats_20240101.json''\<rparr>) =
    Inr (Some ''/proof/exports/heartbeats_20240101.json'', Some ''matched_by_filename'')"
    by code_simp
  from main_inputs_world_with [OF d p t f] show ?thesis
    by (simp only: healthy_world_def)
qed

lemma stale_inputs:
  "main_inputs stale_world =
     Inr \<lparr>ri_used_ns = ''ns1.example.net'',
          ri_dns_txt = ''TS=2024-01-01T02:00:00Z;SHA256=1111111111111111111111111111111111111111111111111111111111111111;FILE=heartbeats_20240101.json'',
          ri_export_dir = ''/proof/exports'',
          ri_proof = \<lparr>ts_iso = ''2024-01-01T02:00:00Z'', sha256 = ''1111111111111111111111111111111111111111111111111111111111111111'', filename = Some ''heartbeats_20240101.json''\<rparr>,
          ri_dns_ts_unix = 1704074400, ri_match_path = Some ''/proof/exports/heartbeats_20240101.json'', ri_how = Some ''matched_by_filename''\<rparr>"
proof -
  have d: "snd (dig_txt_authoritative no_environ (answering_dns ''TS=2024-01-01T02:00:00Z;SHA256=1111111111111111111111111111111111111111111111111111111111111111;FILE=heartbeats_20240101.json'')
      ''_poa.uptimeproof.io'' ''uptimeproof.io'') =
    Inr (''TS=2024-01-01T02:00:00Z;SHA256=1111111111111111111111111111111111111111111111111111111111111111;FILE=heartbeats_20240101.json'', ''ns1.example.net'')"
    by code_simp
  have p: "parse_dns_txt ''TS=2024-01-01T02:00:00Z;SHA256=1111111111111111111111111111111111111111111111111111111111111111;FILE=heartbeats_20240101.json'' =
    Inr \<lparr>ts_iso = ''2024-01-01T02:00:00Z'', sha256 = ''1111111111111111111111111111111111111111111111111111111111111111'', filename = Some ''heartbeats_20240101.json''\<rparr>"
    by code_simp
  have t: "iso_to_unix (example_lib utc_host) (ts_iso \<lparr>ts_iso = ''2024-01-01T02:00:00Z'', sha256 = ''1111111111111111111111111111111111111111111111111111111111111111'', filename = Some ''heartbeats_20240101.json''\<rparr>) = Inr 1704074400"
    by (simp only: DnsProof.simps later_instant)
  have f: "snd (find_local_match evidence_fs ''/proof/exports'' \<lparr>ts_iso = ''2024-01-01T02:00:00Z'', sha256 = ''1111111111111111111111111111111111111111111111111111111111111111'', filename = Some ''heartbeats_20240101.json''\<rparr>) =
    Inr (Some ''/proof/exports/heartbeats_20240101.json'', Some ''matched_by_filename'')"
    by code_simp
  from main_inputs_world_with [OF d p t f] show ?thesis
    by (simp only: stale_world_def)
qed

lemma tampered_inputs:
  "main_inputs tampered_world =
     Inr \<lparr>ri_used_ns = ''ns1.example.net'',
          ri_dns_txt = ''TS=2024-01-01T00:00:00Z;SHA256=2222222222222222222222222222222222222222222222222222222222222222;FILE=heartbeats_20240101.json'',
          ri_export_dir = ''/proof/exports'',
          ri_proof = \<lparr>ts_iso = ''2024-01-01T00:00:00Z'', sha256 = ''2222222222222222222222222222222222222222222222222222222222222222'', filename = Some ''heartbeats_20240101.json''\<rparr>,
          ri_dns_ts_unix = 1704067200, ri_match_path = Some ''/proof/exports/heartbeats_20240101.json'', ri_how = Some ''matched_by_filename''\<rparr>"
proof -
  have d: "snd (dig_txt_authoritative no_environ (answering_dns ''TS=2024-01-01T00:00:00Z;SHA256=2222222222222222222222222222222222222222222222222222222222222222;FILE=heartbeats_20240101.json'')
      ''_poa.uptimeproof.io'' ''uptimeproof.io'') =
    Inr (''TS=2024-01-01T00:00:00Z;SHA256=2222222222222222222222222222222222222222222222222222222222222222;FILE=heartbeats_20240101.json'', ''ns1.example.net'')"
    by code_simp
  have p: "parse_dns_txt ''TS=2024-01-01T00:00:00Z;SHA256=2222222222222222222222222222222222222222222222222222222222222222;FILE=heartbeats_20240101.json'' =
    Inr \<lparr>ts_iso = ''2024-01-01T00:00:00Z'', sha256 = ''2222222222222222222222222222222222222222222222222222222222222222'', filename = Some ''heartbeats_20240101.json''\<rparr>"
    by code_simp
  have t: "iso_to_unix (example_lib utc_host) (ts_iso \<lparr>ts_iso = ''2024-01-01T00:00:00Z'', sha256 = ''2222222222222222222222222222222222222222222222222222222222222222'', filename = Some ''heartbeats_20240101.json''\<rparr>) = Inr 1704067200"
    by (simp only: DnsProof.simps published_instant)
  have f: "snd (find_local_match evidence_fs ''/proof/exports'' \<lparr>ts_iso = ''2024-01-01T00:00:00Z'', sha256 = ''2222222222222222222222222222222222222222222222222222222222222222'', filename = Some ''heartbeats_20240101.json''\<rparr>) =
    Inr (Some ''/proof/exports/heartbeats_20240101.json'', Some ''matched_by_filename'')"
    by code_simp
  from main_inputs_world_with [OF d p t f] show ?thesis
    by (simp only: tampered_world_def)
qed

lemma unmatched_inputs:
  "main_inputs unmatched_world =
     Inr \<lparr>ri_used_ns = ''ns1.example.net'',
          ri_dns_txt = ''TS=2024-01-01T00:00:00Z;SHA256=2222222222222222222222222222222222222222222222222222222222222222'',
          ri_export_dir = ''/proof/exports'',
          ri_proof = \<lparr>ts_iso = ''2024-01-01T00:00:00Z'', sha256 = ''2222222222222222222222222222222222222222222222222222222222222222'', filename = None\<rparr>,
          ri_dns_ts_unix = 1704067200, ri_match_path = None, ri_how = None\<rparr>"
proof -
  have d: "snd (dig_txt_authoritative no_environ (answering_dns ''TS=2024-01-01T00:00:00Z;SHA256=2222222222222222222222222222222222222222222222222222222222222222'')
      ''_poa.uptimeproof.io'' ''uptimeproof.io'') =
    Inr (''TS=2024-01-01T00:00:00Z;SHA256=2222222222222222222222222222222222222222222222222222222222222222'', ''ns1.example.net'')"
    by code_simp
  have p: "parse_dns_txt ''TS=2024-01-01T00:00:00Z;SHA256=2222222222222222222222222222222222222222222222222222222222222222'' =
    Inr \<lparr>ts_iso = ''2024-01-01T00:00:00Z'', sha256 = ''2222222222222222222222222222222222222222222222222222222222222222'', filename = None\<rparr>"
    by code_simp
  have t: "iso_to_unix (example_lib utc_host) (ts_iso \<lparr>ts_iso = ''2024-01-01T00:00:00Z'', sha256 = ''2222222222222222222222222222222222222222222222222222222222222222'', filename = None\<rparr>) = Inr 1704067200"
    by (simp only: DnsProof.simps published_instant)
  have f: "snd (find_local_match evidence_fs ''/proof/exports'' \<lparr>ts_iso = ''2024-01-01T00:00:00Z'', sha256 = ''2222222222222222222222222222222222222222222222222222222222222222'', filename = None\<rparr>) =
    Inr (None, None)"
    by code_simp
  from main_inputs_world_with [OF d p t f] show ?thesis
    by (simp only: unmatched_world_def)
qed

lemma evidence_digest:
  "fs_sha256 evidence_fs ''/proof/exports/heartbeats_20240101.json'' =
     Inr ''1111111111111111111111111111111111111111111111111111111111111111''"
  by (simp add: evidence_fs_def)

lemma evidence_mtime:
  "fs_getmtime evidence_fs ''/proof/exports/heartbeats_20240101.json'' = Inr 1704067500"
  by (simp add: evidence_fs_def)

lemma evidence_digest_lower:
  "py_lower ''1111111111111111111111111111111111111111111111111111111111111111'' =
     ''1111111111111111111111111111111111111111111111111111111111111111''"
  by code_simp

lemma py_int_mtime: "py_int 1704067500 = 1704067500"
  by (simp add: py_int_def)

lemma str_nat_300: "str_nat 300 = ''300''"
  by (simp add: str_nat.simps [of 300] str_nat.simps [of 30] str_nat.simps [of 3])

lemma str_nat_6900: "str_nat 6900 = ''6900''"
  by (simp add: str_nat.simps [of 6900] str_nat.simps [of 690] str_nat.simps [of 69]
      str_nat.simps [of 6])

lemma str_int_300: "str_int 300 = ''300''"
  by (simp add: str_int_def str_nat_300)

lemma str_int_minus_6900: "str_int (- 6900) = ''-6900''"
  by (simp add: str_int_def str_nat_6900)

lemma str_nat_lookback: "str_nat LOOKBACK_FILES = ''300''"
  by (simp add: LOOKBACK_FILES_def str_nat_300)

lemma healthy_report:
  "main_report evidence_fs
     \<lparr>ri_used_ns = ''ns1.example.net'',
      ri_dns_txt = ''TS=2024-01-01T00:00:00Z;SHA256=1111111111111111111111111111111111111111111111111111111111111111;FILE=heartbeats_20240101.json'',
      ri_export_dir = ''/proof/exports'',
      ri_proof = \<lparr>ts_iso = ''2024-01-01T00:00:00Z'', sha256 = ''1111111111111111111111111111111111111111111111111111111111111111'', filename = Some ''heartbeats_20240101.json''\<rparr>,
      ri_dns_ts_unix = 1704067200, ri_match_path = Some ''/proof/exports/heartbeats_20240101.json'', ri_how = Some ''matched_by_filename''\<rparr> =
   Inr ([''VERDICT: OK'',
        ''DNS NS      : ns1.example.net'',
        ''DNS TXT     : TS=2024-01-01T00:00:00Z;SHA256=1111111111111111111111111111111111111111111111111111111111111111;FILE=heartbeats_20240101.json'',
        ''EXPORT_DIR  : /proof/exports'',
        ''Matched file: /proof/exports/heartbeats_20240101.json (matched_by_filename)'',
        ''DNS SHA256  : 1111111111111111111111111111111111111111111111111111111111111111'',
        ''File SHA256 : 1111111111111111111111111111111111111111111111111111111111111111'',
        ''Skew seconds: 300 (file_mtime - dns_ts)'',
        ''LOCAL: OK''], 0)"
  unfolding main_report_def
  by (simp add: or_else_def Let_def evidence_digest evidence_mtime evidence_digest_lower
      py_int_mtime verdict_from_hash_and_skew_def WARN_SKEW_SECONDS_def str_int_300
      str_option_def)

lemma stale_report:
  "main_report evidence_fs
     \<lparr>ri_used_ns = ''ns1.example.net'',
      ri_dns_txt = ''TS=2024-01-01T02:00:00Z;SHA256=1111111111111111111111111111111111111111111111111111111111111111;FILE=heartbeats_20240101.json'',
      ri_export_dir = ''/proof/exports'',
      ri_proof = \<lparr>ts_iso = ''2024-01-01T02:00:00Z'', sha256 = ''1111111111111111111111111111111111111111111111111111111111111111'', filename = Some ''heartbeats_20240101.json''\<rparr>,
      ri_dns_ts_unix = 1704074400, ri_match_path = Some ''/proof/exports/heartbeats_20240101.json'', ri_how = Some ''matched_by_filename''\<rparr> =
   Inr ([''VERDICT: WARN'',
        ''DNS NS      : ns1.example.net'',
        ''DNS TXT     : TS=2024-01-01T02:00:00Z;SHA256=1111111111111111111111111111111111111111111111111111111111111111;FILE=heartbeats_20240101.json'',
        ''EXPORT_DIR  : /proof/exports'',
        ''Matched file: /proof/exports/heartbeats_20240101.json (matched_by_filename)'',
        ''DNS SHA256  : 1111111111111111111111111111111111111111111111111111111111111111'',
        ''File SHA256 : 1111111111111111111111111111111111111111111111111111111111111111'',
        ''Skew seconds: -6900 (file_mtime - dns_ts)'',
        ''LOCAL: WARN''], 1)"
  unfolding main_report_def
  by (simp add: or_else_def Let_def evidence_digest evidence_mtime evidence_digest_lower
      py_int_mtime verdict_from_hash_and_skew_def WARN_SKEW_SECONDS_def FAIL_SKEW_SECONDS_def
      str_int_minus_6900 str_option_def)

lemma tampered_report:
  "main_report evidence_fs
     \<lparr>ri_used_ns = ''ns1.example.net'',
      ri_dns_txt = ''TS=2024-01-01T00:00:00Z;SHA256=2222222222222222222222222222222222222222222222222222222222222222;FILE=heartbeats_20240101.json'',
      ri_export_dir = ''/proof/exports'',
      ri_proof = \<lparr>ts_iso = ''2024-01-01T00:00:00Z'', sha256 = ''2222222222222222222222222222222222222222222222222222222222222222'', filename = Some ''heartbeats_20240101.json''\<rparr>,
      ri_dns_ts_unix = 1704067200, ri_match_path = Some ''/proof/exports/heartbeats_20240101.json'', ri_how = Some ''matched_by_filename''\<rparr> =
   Inr ([''VERDICT: FAIL'',
        ''DNS NS      : ns1.example.net'',
        ''DNS TXT     : TS=2024-01-01T00:00:00Z;SHA256=2222222222222222222222222222222222222222222222222222222222222222;FILE=heartbeats_20240101.json'',
        ''EXPORT_DIR  : /proof/exports'',
        ''Matched file: /proof/exports/heartbeats_20240101.json (matched_by_filename)'',
        ''DNS SHA256  : 2222222222222222222222222222222222222222222222222222222222222222'',
        ''File SHA256 : 1111111111111111111111111111111111111111111111111111111111111111'',
        ''Skew seconds: 300 (file_mtime - dns_ts)'',
        ''LOCAL: FAIL''], 2)"
  unfolding main_report_def
  by (simp add: or_else_def Let_def evidence_digest evidence_mtime evidence_digest_lower
      py_int_mtime verdict_from_hash_and_skew_def str_int_300 str_option_def)

lemma unmatched_report:
  "main_report evidence_fs
     \<lparr>ri_used_ns = ''ns1.example.net'',
      ri_dns_txt = ''TS=2024-01-01T00:00:00Z;SHA256=2222222222222222222222222222222222222222222222222222222222222222'',
      ri_export_dir = ''/proof/exports'',
      ri_proof = \<lparr>ts_iso = ''2024-01-01T00:00:00Z'', sha256 = ''2222222222222222222222222222222222222222222222222222222222222222'', filename = None\<rparr>,
      ri_dns_ts_unix = 1704067200, ri_match_path = None, ri_how = None\<rparr> =
   Inr ([''VERDICT: FAIL'',
        ''DNS NS      : ns1.example.net'',
        ''DNS TXT     : TS=2024-01-01T00:00:00Z;SHA256=2222222222222222222222222222222222222222222222222222222222222222'',
        ''EXPORT_DIR  : /proof/exports'',
        ''LOCAL       : FAIL (no matching export found in last 300 files)''], 2)"
  unfolding main_report_def
  by (simp add: or_else_def str_nat_lookback)

lemma no_env_file: "load_env_file (w_text_file (world_with proc) ENV_FILE) = Inr Map.empty"
  by (simp add: world_with_def load_env_file_def)

lemma silent_fetch:
  "snd (dig_txt_authoritative no_environ silent_dns ''_poa.uptimeproof.io'' ''uptimeproof.io'') =
     Inl (RuntimeError
       (''No TXT returned for _poa.uptimeproof.io via authoritative NS (zone=uptimeproof.io). last_err=Command failed: dig @ns1.example.net +short TXT _poa.uptimeproof.io +time=2 +tries=1''
        @ [NEWLINE] @ ''no servers could be reached''))"
  by code_simp

lemma malformed_fetch:
  "snd (dig_txt_authoritative no_environ (answering_dns ''TS=2024-01-01T00:00:00Z;FILE=x.json'')
     ''_poa.uptimeproof.io'' ''uptimeproof.io'') =
     Inr (''TS=2024-01-01T00:00:00Z;FILE=x.json'', ''ns1.example.net'')"
  by code_simp

lemma malformed_parse:
  "parse_dns_txt ''TS=2024-01-01T00:00:00Z;FILE=x.json'' = Inl (RuntimeError ''Unrecognized TXT format: TS=2024-01-01T00:00:00Z;FILE=x.json'')"
  by code_simp

lemma main_of_inputs: "main_inputs w = Inr i \<Longrightarrow> main w = main_report (w_fs w) i"
  by (simp add: main_def)

lemma world_with_fs: "w_fs (world_with proc) = evidence_fs"
  by (simp add: world_with_def)

lemma main_fetch_raises:
  "snd (dig_txt_authoritative no_environ proc ''_poa.uptimeproof.io'' ''uptimeproof.io'') = Inl e \<Longrightarrow>
   main (world_with proc) = Inl e"
  unfolding main_def main_inputs_def world_with_def
  by (simp add: load_env_file_def or_else_def no_environ_def DNS_NAME_DEFAULT_def
      DNS_ZONE_DEFAULT_def Let_def)

lemma main_parse_raises:
  "snd (dig_txt_authoritative no_environ proc ''_poa.uptimeproof.io'' ''uptimeproof.io'') =
     Inr (dns_txt, used_ns) \<Longrightarrow>
   parse_dns_txt dns_txt = Inl e \<Longrightarrow>
   main (world_with proc) = Inl e"
  unfolding main_def main_inputs_def world_with_def
  by (simp add: load_env_file_def or_else_def no_environ_def DNS_NAME_DEFAULT_def
      DNS_ZONE_DEFAULT_def Let_def)

text \<open>
  C3, as amended. When \<^verbatim>\<open>main\<close> returns, the process exit status is the value returned,
  and the first line printed is \<^verbatim>\<open>VERDICT: OK\<close> with status 0, \<^verbatim>\<open>VERDICT: WARN\<close> with
  status 1, or \<^verbatim>\<open>VERDICT: FAIL\<close> with status 2. When no local match is found, the first
  line is \<^verbatim>\<open>VERDICT: FAIL\<close> and the status is 2. When \<^verbatim>\<open>main\<close> raises, the status is 1:
  an error of the fetch, and an error of the parse, leave \<^verbatim>\<open>main\<close> as they are and end the
  process with status 1.
\<close>

theorem exit_status_by_verdict:
  "(\<forall>out code. main w = Inr (out, code) \<longrightarrow>
      exit_status w = code \<and> out \<noteq> [] \<and>
      ((hd out = ''VERDICT: OK'' \<and> code = 0) \<or> (hd out = ''VERDICT: WARN'' \<and> code = 1) \<or>
       (hd out = ''VERDICT: FAIL'' \<and> code = 2))) \<and>
   (\<forall>i. main_inputs w = Inr i \<and> or_else (ri_match_path i) [] = [] \<longrightarrow>
      exit_status w = 2 \<and> (\<exists>out. main w = Inr (out, 2) \<and> hd out = ''VERDICT: FAIL'')) \<and>
   (\<forall>e. main w = Inl e \<longrightarrow> exit_status w = 1) \<and>
   (\<forall>env e. load_env_file (w_text_file w ENV_FILE) = Inr env \<and>
      snd (dig_txt_authoritative (w_environ w) (w_proc w)
             (case env ''DNS_NAME'' of None \<Rightarrow> DNS_NAME_DEFAULT | Some v \<Rightarrow> v)
             (or_else (w_environ w ''DNS_ZONE'') (or_else (env ''DNS_ZONE'') DNS_ZONE_DEFAULT))) = Inl e \<longrightarrow>
      main w = Inl e \<and> exit_status w = 1) \<and>
   (\<forall>env dns_txt used_ns e. load_env_file (w_text_file w ENV_FILE) = Inr env \<and>
      snd (dig_txt_authoritative (w_environ w) (w_proc w)
             (case env ''DNS_NAME'' of None \<Rightarrow> DNS_NAME_DEFAULT | Some v \<Rightarrow> v)
             (or_else (w_environ w ''DNS_ZONE'') (or_else (env ''DNS_ZONE'') DNS_ZONE_DEFAULT))) =
        Inr (dns_txt, used_ns) \<and>
      parse_dns_txt dns_txt = Inl e \<longrightarrow>
      main w = Inl e \<and> exit_status w = 1)"
proof -
  have c1: "\<forall>out code. main w = Inr (out, code) \<longrightarrow>
      exit_status w = code \<and> out \<noteq> [] \<and>
      ((hd out = ''VERDICT: OK'' \<and> code = 0) \<or> (hd out = ''VERDICT: WARN'' \<and> code = 1) \<or>
       (hd out = ''VERDICT: FAIL'' \<and> code = 2))"
  proof (intro allI impI)
    fix out code
    assume m: "main w = Inr (out, code)"
    then have e: "exit_status w = code" by (simp add: exit_status_def)
    from m obtain i where "main_report (w_fs w) i = Inr (out, code)"
      by (auto simp: main_def split: sum.splits)
    from main_report_cases [OF this] e
    show "exit_status w = code \<and> out \<noteq> [] \<and>
      ((hd out = ''VERDICT: OK'' \<and> code = 0) \<or> (hd out = ''VERDICT: WARN'' \<and> code = 1) \<or>
       (hd out = ''VERDICT: FAIL'' \<and> code = 2))" by simp
  qed
  have c2: "\<forall>i. main_inputs w = Inr i \<and> or_else (ri_match_path i) [] = [] \<longrightarrow>
      exit_status w = 2 \<and> (\<exists>out. main w = Inr (out, 2) \<and> hd out = ''VERDICT: FAIL'')"
  proof (intro allI impI)
    fix i
    assume h: "main_inputs w = Inr i \<and> or_else (ri_match_path i) [] = []"
    then obtain out where o: "main_report (w_fs w) i = Inr (out, 2)" "hd out = ''VERDICT: FAIL''"
      using main_report_no_match by blast
    with h have "main w = Inr (out, 2)" by (simp add: main_def)
    with o show "exit_status w = 2 \<and> (\<exists>out. main w = Inr (out, 2) \<and> hd out = ''VERDICT: FAIL'')"
      by (auto simp: exit_status_def)
  qed
  have c3: "\<forall>e. main w = Inl e \<longrightarrow> exit_status w = 1"
    by (simp add: exit_status_def)
  have c4: "\<forall>env e. load_env_file (w_text_file w ENV_FILE) = Inr env \<and>
      snd (dig_txt_authoritative (w_environ w) (w_proc w)
             (case env ''DNS_NAME'' of None \<Rightarrow> DNS_NAME_DEFAULT | Some v \<Rightarrow> v)
             (or_else (w_environ w ''DNS_ZONE'') (or_else (env ''DNS_ZONE'') DNS_ZONE_DEFAULT))) = Inl e \<longrightarrow>
      main w = Inl e \<and> exit_status w = 1"
    by (simp add: main_def main_inputs_def Let_def exit_status_def)
  have c5: "\<forall>env dns_txt used_ns e. load_env_file (w_text_file w ENV_FILE) = Inr env \<and>
      snd (dig_txt_authoritative (w_environ w) (w_proc w)
             (case env ''DNS_NAME'' of None \<Rightarrow> DNS_NAME_DEFAULT | Some v \<Rightarrow> v)
             (or_else (w_environ w ''DNS_ZONE'') (or_else (env ''DNS_ZONE'') DNS_ZONE_DEFAULT))) =
        Inr (dns_txt, used_ns) \<and>
      parse_dns_txt dns_txt = Inl e \<longrightarrow>
      main w = Inl e \<and> exit_status w = 1"
    by (simp add: main_def main_inputs_def Let_def exit_status_def)
  from c1 c2 c3 c4 c5 show ?thesis by (intro conjI)
qed

theorem exit_status_by_verdict_witness:
  "main healthy_world =
     Inr ([''VERDICT: OK'',
        ''DNS NS      : ns1.example.net'',
        ''DNS TXT     : TS=2024-01-01T00:00:00Z;SHA256=1111111111111111111111111111111111111111111111111111111111111111;FILE=heartbeats_20240101.json'',
        ''EXPORT_DIR  : /proof/exports'',
        ''Matched file: /proof/exports/heartbeats_20240101.json (matched_by_filename)'',
        ''DNS SHA256  : 1111111111111111111111111111111111111111111111111111111111111111'',
        ''File SHA256 : 1111111111111111111111111111111111111111111111111111111111111111'',
        ''Skew seconds: 300 (file_mtime - dns_ts)'',
        ''LOCAL: OK''], 0) \<and>
   exit_status healthy_world = 0 \<and>
   (\<exists>out. main stale_world = Inr (out, 1) \<and> hd out = ''VERDICT: WARN'') \<and>
   exit_status stale_world = 1 \<and>
   (\<exists>out. main tampered_world = Inr (out, 2) \<and> hd out = ''VERDICT: FAIL'') \<and>
   exit_status tampered_world = 2 \<and>
   (\<exists>out. main unmatched_world = Inr (out, 2) \<and> hd out = ''VERDICT: FAIL'') \<and>
   exit_status unmatched_world = 2 \<and>
   main unreachable_world =
     Inl (RuntimeError
       (''No TXT returned for _poa.uptimeproof.io via authoritative NS (zone=uptimeproof.io). last_err=Command failed: dig @ns1.example.net +short TXT _poa.uptimeproof.io +time=2 +tries=1''
        @ [NEWLINE] @ ''no servers could be reached'')) \<and>
   exit_status unreachable_world = 1 \<and>
   main malformed_world = Inl (RuntimeError ''Unrecognized TXT format: TS=2024-01-01T00:00:00Z;FILE=x.json'') \<and>
   exit_status malformed_world = 1"
proof -
  have mh: "main healthy_world =
     Inr ([''VERDICT: OK'',
        ''DNS NS      : ns1.example.net'',
        ''DNS TXT     : TS=2024-01-01T00:00:00Z;SHA256=1111111111111111111111111111111111111111111111111111111111111111;FILE=heartbeats_20240101.json'',
        ''EXPORT_DIR  : /proof/exports'',
        ''Matched file: /proof/exports/heartbeats_20240101.json (matched_by_filename)'',
        ''DNS SHA256  : 1111111111111111111111111111111111111111111111111111111111111111'',
        ''File SHA256 : 1111111111111111111111111111111111111111111111111111111111111111'',
        ''Skew seconds: 300 (file_mtime - dns_ts)'',
        ''LOCAL: OK''], 0)"
    unfolding main_of_inputs [OF healthy_inputs]
    by (simp only: healthy_world_def world_with_fs healthy_report)
  from exit_status_by_verdict [of healthy_world] mh
  have eh: "exit_status healthy_world = 0" by blast
  have "\<exists>out. main stale_world = Inr (out, 1) \<and> hd out = ''VERDICT: WARN''"
    unfolding main_of_inputs [OF stale_inputs]
    by (simp add: stale_world_def world_with_fs stale_report)
  then obtain os where ms: "main stale_world = Inr (os, 1)" and hs: "hd os = ''VERDICT: WARN''"
    by blast
  from exit_status_by_verdict [of stale_world] ms
  have es: "exit_status stale_world = 1" by blast
  have "\<exists>out. main tampered_world = Inr (out, 2) \<and> hd out = ''VERDICT: FAIL''"
    unfolding main_of_inputs [OF tampered_inputs]
    by (simp add: tampered_world_def world_with_fs tampered_report)
  then obtain ot where mt: "main tampered_world = Inr (ot, 2)" and ht: "hd ot = ''VERDICT: FAIL''"
    by blast
  from exit_status_by_verdict [of tampered_world] mt
  have et: "exit_status tampered_world = 2" by blast
  have "or_else None [] = []" by (simp add: or_else_def)
  with exit_status_by_verdict [of unmatched_world] unmatched_inputs
  have eu: "exit_status unmatched_world = 2 \<and>
      (\<exists>out. main unmatched_world = Inr (out, 2) \<and> hd out = ''VERDICT: FAIL'')"
    by simp
  have fu: "snd (dig_txt_authoritative (w_environ unreachable_world) (w_proc unreachable_world)
             (case Map.empty ''DNS_NAME'' of None \<Rightarrow> DNS_NAME_DEFAULT | Some v \<Rightarrow> v)
             (or_else (w_environ unreachable_world ''DNS_ZONE'')
                (or_else (Map.empty ''DNS_ZONE'') DNS_ZONE_DEFAULT))) =
     Inl (RuntimeError
       (''No TXT returned for _poa.uptimeproof.io via authoritative NS (zone=uptimeproof.io). last_err=Command failed: dig @ns1.example.net +short TXT _poa.uptimeproof.io +time=2 +tries=1''
        @ [NEWLINE] @ ''no servers could be reached''))"
    by (simp add: unreachable_world_def world_with_def or_else_def no_environ_def
        DNS_NAME_DEFAULT_def DNS_ZONE_DEFAULT_def silent_fetch)
  have lu: "load_env_file (w_text_file unreachable_world ENV_FILE) = Inr Map.empty"
    by (simp only: unreachable_world_def no_env_file)
  from exit_status_by_verdict [of unreachable_world] lu fu
  have ur: "main unreachable_world =
     Inl (RuntimeError
       (''No TXT returned for _poa.uptimeproof.io via authoritative NS (zone=uptimeproof.io). last_err=Command failed: dig @ns1.example.net +short TXT _poa.uptimeproof.io +time=2 +tries=1''
        @ [NEWLINE] @ ''no servers could be reached'')) \<and>
     exit_status unreachable_world = 1"
    by blast
  have fm: "snd (dig_txt_authoritative (w_environ malformed_world) (w_proc malformed_world)
             (case Map.empty ''DNS_NAME'' of None \<Rightarrow> DNS_NAME_DEFAULT | Some v \<Rightarrow> v)
             (or_else (w_environ malformed_world ''DNS_ZONE'')
                (or_else (Map.empty ''DNS_ZONE'') DNS_ZONE_DEFAULT))) =
     Inr (''TS=2024-01-01T00:00:00Z;FILE=x.json'', ''ns1.example.net'')"
    by (simp add: malformed_world_def world_with_def or_else_def no_environ_def
        DNS_NAME_DEFAULT_def DNS_ZONE_DEFAULT_def malformed_fetch)
  have lm: "load_env_file (w_text_file malformed_world ENV_FILE) = Inr Map.empty"
    by (simp only: malformed_world_def no_env_file)
  from exit_status_by_verdict [of malformed_world] lm fm malformed_parse
  have mr: "main malformed_world = Inl (RuntimeError ''Unrecognized TXT format: TS=2024-01-01T00:00:00Z;FILE=x.json'') \<and>
     exit_status malformed_world = 1"
    by blast
  from mh eh ms hs es mt ht et eu ur mr show ?thesis by blast
qed

text \<open>
  The claim as stated fails on its last part: when no nameserver answers, and when the
  published record has no hash, the error leaves \<^verbatim>\<open>main\<close> and the exit status is 1, not 2.
\<close>

theorem fetch_or_parse_error_exits_one:
  "snd (dig_txt_authoritative no_environ silent_dns ''_poa.uptimeproof.io'' ''uptimeproof.io'') =
     Inl (RuntimeError
       (''No TXT returned for _poa.uptimeproof.io via authoritative NS (zone=uptimeproof.io). last_err=Command failed: dig @ns1.example.net +short TXT _poa.uptimeproof.io +time=2 +tries=1''
        @ [NEWLINE] @ ''no servers could be reached'')) \<and>
   main unreachable_world =
     Inl (RuntimeError
       (''No TXT returned for _poa.uptimeproof.io via authoritative NS (zone=uptimeproof.io). last_err=Command failed: dig @ns1.example.net +short TXT _poa.uptimeproof.io +time=2 +tries=1''
        @ [NEWLINE] @ ''no servers could be reached'')) \<and>
   exit_status unreachable_world = 1 \<and>
   exit_status unreachable_world \<noteq> 2 \<and>
   parse_dns_txt ''TS=2024-01-01T00:00:00Z;FILE=x.json'' = Inl (RuntimeError ''Unrecognized TXT format: TS=2024-01-01T00:00:00Z;FILE=x.json'') \<and>
   main malformed_world = Inl (RuntimeError ''Unrecognized TXT format: TS=2024-01-01T00:00:00Z;FILE=x.json'') \<and>
   exit_status malformed_world = 1 \<and>
   exit_status malformed_world \<noteq> 2"
proof -
  have u: "main unreachable_world =
     Inl (RuntimeError
       (''No TXT returned for _poa.uptimeproof.io via authoritative NS (zone=uptimeproof.io). last_err=Command failed: dig @ns1.example.net +short TXT _poa.uptimeproof.io +time=2 +tries=1''
        @ [NEWLINE] @ ''no servers could be reached''))"
    unfolding unreachable_world_def by (rule main_fetch_raises [OF silent_fetch])
  have m: "main malformed_world = Inl (RuntimeError ''Unrecognized TXT format: TS=2024-01-01T00:00:00Z;FILE=x.json'')"
    unfolding malformed_world_def by (rule main_parse_raises [OF malformed_fetch malformed_parse])
  from u have eu: "exit_status unreachable_world = 1" by (simp add: exit_status_def)
  from m have em: "exit_status malformed_world = 1" by (simp add: exit_status_def)
  from silent_fetch u eu malformed_parse m em show ?thesis by simp
qed


end
